theory Spec2Isabelle
  imports Main "HOL-Library.AList" "HOL-Library.Multiset" "HOL-Library.Sublist"
begin

section \<open>The auto-fix data model\<close>

text \<open>
  The language server keeps, per document, the auto-fixes that the last lint run proposed.
  An \<^verbatim>\<open>ESLintAutoFixEdit\<close> is \<^verbatim>\<open>{ range: [number, number]; text: string }\<close>; the two
  entries of \<^verbatim>\<open>range\<close> are absolute character offsets, modelled as integers
  (\<^verbatim>\<open>range[0]\<close> is the first component of the pair, \<^verbatim>\<open>range[1]\<close> the second).
  An \<^verbatim>\<open>AutoFix\<close> is \<^verbatim>\<open>{ label; documentVersion; ruleId; edit }\<close>.
  The field \<^verbatim>\<open>range\<close> is called \<open>fix_range\<close> and \<^verbatim>\<open>text\<close> is called \<open>fix_text\<close>
  here, since both words are taken in Isabelle.
\<close>

record ESLintAutoFixEdit =
  fix_range :: "int \<times> int"
  fix_text :: string

record AutoFix =
  label :: string
  documentVersion :: int
  ruleId :: string
  edit :: ESLintAutoFixEdit

text \<open>
  A JavaScript \<^verbatim>\<open>Map<string, AutoFix>\<close> iterates in insertion order and \<^verbatim>\<open>set\<close> on a key
  that is present keeps the key's position: this is an association list with
  \<^const>\<open>AList.update\<close>.
\<close>

type_synonym Edits = "(string \<times> AutoFix) list"

abbreviation range_start :: "AutoFix \<Rightarrow> int" where
  "range_start f \<equiv> fst (fix_range (edit f))"

abbreviation range_end :: "AutoFix \<Rightarrow> int" where
  "range_end f \<equiv> snd (fix_range (edit f))"

section \<open>The class \<^verbatim>\<open>Fixes\<close>\<close>

text \<open>
  \<^verbatim>\<open>Fixes.overlaps(lastEdit, newEdit)\<close> is
  \<^verbatim>\<open>!!lastEdit && lastEdit.edit.range[1] > newEdit.edit.range[0]\<close>; \<^verbatim>\<open>lastEdit\<close> is
  \<^verbatim>\<open>undefined\<close> when the caller's accumulator is still empty.
\<close>

definition overlaps :: "AutoFix option \<Rightarrow> AutoFix \<Rightarrow> bool" where
  "overlaps lastEdit newEdit =
     (case lastEdit of
        None \<Rightarrow> False
      | Some l \<Rightarrow> snd (fix_range (edit l)) > fst (fix_range (edit newEdit)))"

definition isEmpty :: "Edits \<Rightarrow> bool" where
  "isEmpty edits = (length edits = 0)"

text \<open>The comparison function handed to \<^verbatim>\<open>sort\<close> in \<^verbatim>\<open>getAllSorted\<close>.\<close>

definition compareFixes :: "AutoFix \<Rightarrow> AutoFix \<Rightarrow> int" where
  "compareFixes a b =
     (let d = fst (fix_range (edit a)) - fst (fix_range (edit b)) in
      if d \<noteq> 0 then d
      else if snd (fix_range (edit a)) = 0 then - 1
      else if snd (fix_range (edit b)) = 0 then 1
      else snd (fix_range (edit a)) - snd (fix_range (edit b)))"

text \<open>
  \<^verbatim>\<open>Array.prototype.sort(comparefn)\<close> belongs to the JavaScript runtime. It is modelled as
  the stable insertion sort driven by the comparison function: the elements are taken from
  left to right and each one is placed in front of the first element of the sorted prefix
  that \<^verbatim>\<open>comparefn\<close> ranks strictly after it. The comparison function of
  \<^verbatim>\<open>getAllSorted\<close> answers \<open>- 1\<close> both ways for two edits with the same start that both end
  at 0; a runtime may order such a pair either way, and the model keeps their order of
  insertion.
\<close>

fun sort_insert :: "('a \<Rightarrow> 'a \<Rightarrow> int) \<Rightarrow> 'a \<Rightarrow> 'a list \<Rightarrow> 'a list" where
  "sort_insert comparefn x [] = [x]"
| "sort_insert comparefn x (y # ys) =
     (if comparefn y x > 0 then x # y # ys else y # sort_insert comparefn x ys)"

definition array_sort :: "('a \<Rightarrow> 'a \<Rightarrow> int) \<Rightarrow> 'a list \<Rightarrow> 'a list" where
  "array_sort comparefn xs = foldl (\<lambda>acc x. sort_insert comparefn x acc) [] xs"

definition getAllSorted :: "Edits \<Rightarrow> AutoFix list" where
  "getAllSorted edits = array_sort compareFixes (map snd edits)"

text \<open>
  The loop of \<^verbatim>\<open>getOverlapFree\<close>: \<open>last'\<close> and \<open>result\<close> are the loop's two variables, the
  third argument is what is left of \<^verbatim>\<open>sorted\<close> from index \<^verbatim>\<open>i\<close> on.
\<close>

fun overlapFree_loop :: "AutoFix \<Rightarrow> AutoFix list \<Rightarrow> AutoFix list \<Rightarrow> AutoFix list" where
  "overlapFree_loop last' result [] = result"
| "overlapFree_loop last' result (current # rest) =
     (if \<not> overlaps (Some last') current
      then overlapFree_loop current (result @ [current]) rest
      else overlapFree_loop last' result rest)"

definition getOverlapFree :: "Edits \<Rightarrow> AutoFix list" where
  "getOverlapFree edits =
     (let sorted' = getAllSorted edits in
      if length sorted' \<le> 1 then sorted'
      else overlapFree_loop (hd sorted') [hd sorted'] (tl sorted'))"

text \<open>
  The order that the specification gives for \<^verbatim>\<open>getAllSorted\<close>, in its words: by range
  start ascending; on equal starts an edit whose end is 0 comes first, otherwise the ends
  ascend.
\<close>

definition sorts_before :: "AutoFix \<Rightarrow> AutoFix \<Rightarrow> bool" where
  "sorts_before a b =
     (range_start a < range_start b \<or>
      (range_start a = range_start b \<and>
         (range_end a = 0 \<or> (range_end b \<noteq> 0 \<and> range_end a \<le> range_end b))))"

text \<open>
  The greedy scan that the specification gives for \<^verbatim>\<open>getOverlapFree\<close>, in its words: the
  first element is kept; a later candidate is kept, and becomes the new \<open>last\<close>, only if
  \<open>last.range.end \<le> candidate.range.start\<close>.
\<close>

fun keep_after :: "AutoFix \<Rightarrow> AutoFix list \<Rightarrow> AutoFix list" where
  "keep_after last' [] = []"
| "keep_after last' (candidate # rest) =
     (if range_end last' \<le> range_start candidate
      then candidate # keep_after candidate rest
      else keep_after last' rest)"

definition greedy_scan :: "AutoFix list \<Rightarrow> AutoFix list" where
  "greedy_scan sorted' =
     (case sorted' of [] \<Rightarrow> [] | first' # rest \<Rightarrow> first' # keep_after first' rest)"

text \<open>Concrete fixes for the scenarios: rule, start offset, end offset.\<close>

definition mkFix :: "string \<Rightarrow> int \<Rightarrow> int \<Rightarrow> AutoFix" where
  "mkFix r s e =
     \<lparr> label = ''Fix this '' @ r @ '' problem'', documentVersion = 1, ruleId = r,
       edit = \<lparr> fix_range = (s, e), fix_text = [] \<rparr> \<rparr>"

section \<open>Diagnostics, documents and workspace edits\<close>

text \<open>
  The protocol types that the handlers touch. \<^verbatim>\<open>Range.end\<close> is called \<open>end'\<close>, the field
  \<^verbatim>\<open>range\<close> of a diagnostic is called \<open>range'\<close> and that of a text edit \<open>edit_range\<close>. The
  \<^verbatim>\<open>code\<close> of a diagnostic is a string, or \<^verbatim>\<open>null\<close> when \<^verbatim>\<open>makeDiagnostic\<close> copies the rule id
  of a finding that has none, or missing (\<^verbatim>\<open>undefined\<close>) in a diagnostic that a client sends
  without one.
\<close>

record Position =
  line :: int
  character :: int

record Range =
  start :: Position
  end' :: Position

datatype DiagnosticSeverity = Error | Warning | Information | Hint

datatype DiagnosticCode = Code string | NullCode | NoCode

record Diagnostic =
  message :: string
  severity :: DiagnosticSeverity
  source :: string
  range' :: Range
  code :: DiagnosticCode

text \<open>
  A template literal turns a number into its decimal digits, \<^verbatim>\<open>null\<close> into the word
  \<^verbatim>\<open>null\<close> and \<^verbatim>\<open>undefined\<close> into the word \<^verbatim>\<open>undefined\<close>.
\<close>

fun show_nat :: "nat \<Rightarrow> string" where
  "show_nat n =
     (if n < 10 then [''0123456789'' ! n]
      else show_nat (n div 10) @ [''0123456789'' ! (n mod 10)])"

declare show_nat.simps [simp del]

definition show_int :: "int \<Rightarrow> string" where
  "show_int i = (if i < 0 then CHR ''-'' # show_nat (nat (- i)) else show_nat (nat i))"

text \<open>The rule id of a finding as a string, for stating what is recorded for it.\<close>

definition show_code :: "string option \<Rightarrow> string" where
  "show_code c = (case c of None \<Rightarrow> ''null'' | Some r \<Rightarrow> r)"

definition show_diagnostic_code :: "DiagnosticCode \<Rightarrow> string" where
  "show_diagnostic_code c =
     (case c of Code r \<Rightarrow> r | NullCode \<Rightarrow> ''null'' | NoCode \<Rightarrow> ''undefined'')"

definition computeKey :: "Diagnostic \<Rightarrow> string" where
  "computeKey diagnostic =
     (let range = range' diagnostic in
      ''['' @ show_int (line (start range)) @ '','' @ show_int (character (start range)) @ '','' @
      show_int (line (end' range)) @ '','' @ show_int (character (end' range)) @ '']-'' @
      show_diagnostic_code (code diagnostic))"

text \<open>
  \<^verbatim>\<open>getScoped\<close>: the fixes recorded under the keys of the given diagnostics, in the order
  of the diagnostics; a diagnostic without a recorded fix is passed over.
\<close>

fun getScoped :: "Edits \<Rightarrow> Diagnostic list \<Rightarrow> AutoFix list" where
  "getScoped edits [] = []"
| "getScoped edits (diagnostic # diagnostics) =
     (case map_of edits (computeKey diagnostic) of
        None \<Rightarrow> getScoped edits diagnostics
      | Some editInfo \<Rightarrow> editInfo # getScoped edits diagnostics)"

text \<open>
  A \<^verbatim>\<open>TextDocument\<close> of the document manager: \<^verbatim>\<open>positionAt\<close> is the library's translation
  of an offset into a line and a character, a field of the model.
\<close>

record TextDocument =
  uri :: string
  version :: int
  getText :: string
  positionAt :: "int \<Rightarrow> Position"

record TextEdit =
  edit_range :: Range
  newText :: string

record WorkspaceChange =
  change_uri :: string
  change_version :: int
  textEdits :: "TextEdit list"

record Command =
  title :: string
  command :: string

definition applySingleFix :: string where "applySingleFix = ''eslint.applySingleFix''"
definition applySameFixes :: string where "applySameFixes = ''eslint.applySameFixes''"
definition applyAllFixes :: string where "applyAllFixes = ''eslint.applyAllFixes''"
definition applyAutoFix :: string where "applyAutoFix = ''eslint.applyAutoFix''"

text \<open>
  The module's mutable state that the handlers read and write: the open documents of the
  document manager, the correlation store \<^verbatim>\<open>codeActions\<close> and the prepared \<^verbatim>\<open>commands\<close>.
  The variable \<^verbatim>\<open>commands\<close> is declared without a value (\<open>None\<close>) and gets a fresh map at
  every code-action request.
\<close>

record ServerState =
  documents :: "string \<rightharpoonup> TextDocument"
  codeActions :: "string \<rightharpoonup> Edits"
  commands :: "(string \<rightharpoonup> WorkspaceChange) option"

text \<open>
  \<^verbatim>\<open>createTextEdit\<close>, the closure that each handler defines over its \<^verbatim>\<open>textDocument\<close>;
  \<^verbatim>\<open>editInfo.edit.text || ''\<close> is the text itself.
\<close>

definition createTextEdit :: "TextDocument \<Rightarrow> AutoFix \<Rightarrow> TextEdit" where
  "createTextEdit textDocument editInfo =
     \<lparr> edit_range =
         \<lparr> start = positionAt textDocument (fst (fix_range (edit editInfo))),
           end' = positionAt textDocument (snd (fix_range (edit editInfo))) \<rparr>,
       newText = fix_text (edit editInfo) \<rparr>"

section \<open>The code-action request handler\<close>

definition getLastEdit :: "AutoFix list \<Rightarrow> AutoFix option" where
  "getLastEdit array =
     (let length' = length array in
      if length' = 0 then None else Some (array ! (length' - 1)))"

text \<open>
  A function either returns, or throws the \<^verbatim>\<open>TypeError\<close> of a property read on
  \<^verbatim>\<open>undefined\<close>, or lets an error of the lint library pass.
\<close>

datatype 'a Outcome = Returned 'a | TypeError | LintError

record CodeActionParams =
  textDocument_uri :: string
  context_diagnostics :: "Diagnostic list"

text \<open>
  The body of the loop over \<^verbatim>\<open>fixes.getScoped(params.context.diagnostics)\<close>. The loop's
  variables are \<^verbatim>\<open>documentVersion\<close>, \<^verbatim>\<open>ruleId\<close> (unassigned before the first round),
  \<^verbatim>\<open>commands\<close> and \<^verbatim>\<open>result\<close>.
\<close>

definition scoped_step ::
  "string \<Rightarrow> TextDocument \<Rightarrow>
   int \<times> string option \<times> (string \<rightharpoonup> WorkspaceChange) \<times> Command list \<Rightarrow> AutoFix \<Rightarrow>
   int \<times> string option \<times> (string \<rightharpoonup> WorkspaceChange) \<times> Command list" where
  "scoped_step uri' textDocument vars editInfo =
     (case vars of (documentVersion', ruleId', commands', result) \<Rightarrow>
        (documentVersion editInfo,
         Some (ruleId editInfo),
         commands'(applySingleFix \<mapsto>
           \<lparr> change_uri = uri', change_version = documentVersion editInfo,
             textEdits = [createTextEdit textDocument editInfo] \<rparr>),
         result @ [\<lparr> title = label editInfo, command = applySingleFix \<rparr>]))"

text \<open>
  The body of the loop over \<^verbatim>\<open>fixes.getAllSorted()\<close>, with the variables
  \<^verbatim>\<open>documentVersion\<close>, \<^verbatim>\<open>same\<close> and \<^verbatim>\<open>all\<close>.
\<close>

definition batch_step ::
  "string option \<Rightarrow> int \<times> AutoFix list \<times> AutoFix list \<Rightarrow> AutoFix \<Rightarrow>
   int \<times> AutoFix list \<times> AutoFix list" where
  "batch_step ruleId' vars editInfo =
     (case vars of (documentVersion', same, all) \<Rightarrow>
        (if documentVersion' = - 1 then documentVersion editInfo else documentVersion',
         if Some (ruleId editInfo) = ruleId' \<and> \<not> overlaps (getLastEdit same) editInfo
         then same @ [editInfo] else same,
         if \<not> overlaps (getLastEdit all) editInfo then all @ [editInfo] else all))"

text \<open>The rule id inside a template literal; an unassigned variable prints as \<^verbatim>\<open>undefined\<close>.\<close>

definition show_rule :: "string option \<Rightarrow> string" where
  "show_rule r = (case r of None \<Rightarrow> ''undefined'' | Some r' \<Rightarrow> r')"

definition codeActionHandler ::
  "CodeActionParams \<Rightarrow> ServerState \<Rightarrow> ServerState \<times> Command list Outcome" where
  "codeActionHandler params st =
     (let st0 = st\<lparr>commands := Some Map.empty\<rparr>;
          uri' = textDocument_uri params in
      case codeActions st0 uri' of
        None \<Rightarrow> (st0, Returned [])
      | Some edits \<Rightarrow>
          if isEmpty edits then (st0, Returned [])
          else
            let scoped = getScoped edits (context_diagnostics params) in
            (case documents st0 uri' of
               None \<Rightarrow> if scoped = [] then (st0, Returned []) else (st0, TypeError)
             | Some textDocument \<Rightarrow>
                 (case foldl (scoped_step uri' textDocument) (- 1, None, Map.empty, []) scoped of
                    (documentVersion1, ruleId', commands1, result1) \<Rightarrow>
                      if length result1 > 0 then
                        (case foldl (batch_step ruleId') (documentVersion1, [], [])
                                (getAllSorted edits) of
                           (documentVersion2, same, all) \<Rightarrow>
                             let commands2 =
                                   (if length same > 1
                                    then commands1(applySameFixes \<mapsto>
                                      \<lparr> change_uri = uri', change_version = documentVersion2,
                                        textEdits = map (createTextEdit textDocument) same \<rparr>)
                                    else commands1);
                                 result2 =
                                   (if length same > 1
                                    then result1 @
                                      [\<lparr> title = ''Fix all '' @ show_rule ruleId' @ '' problems'',
                                         command = applySameFixes \<rparr>]
                                    else result1);
                                 commands3 =
                                   (if length all > 1
                                    then commands2(applyAllFixes \<mapsto>
                                      \<lparr> change_uri = uri', change_version = documentVersion2,
                                        textEdits = map (createTextEdit textDocument) all \<rparr>)
                                    else commands2);
                                 result3 =
                                   (if length all > 1
                                    then result2 @
                                      [\<lparr> title = ''Fix all auto-fixable problems'',
                                         command = applyAllFixes \<rparr>]
                                    else result2)
                             in (st0\<lparr>commands := Some commands3\<rparr>, Returned result3))
                      else (st0\<lparr>commands := Some commands1\<rparr>, Returned result1))))"

text \<open>The workspace change prepared under a command id, if any.\<close>

definition prepared :: "ServerState \<Rightarrow> string \<rightharpoonup> WorkspaceChange" where
  "prepared st = (case commands st of None \<Rightarrow> Map.empty | Some commands' \<Rightarrow> commands')"

text \<open>
  The two accumulators of the batching in the words of the specification: an accumulator
  accepts a fix iff the fix is a member (has the triggering rule, or any rule) and the
  accumulator's last accepted fix, if there is one, does not end after the fix starts.
\<close>

fun accept_scan :: "(AutoFix \<Rightarrow> bool) \<Rightarrow> AutoFix option \<Rightarrow> AutoFix list \<Rightarrow> AutoFix list" where
  "accept_scan member' lastAccepted [] = []"
| "accept_scan member' lastAccepted (f # fs) =
     (if member' f \<and>
         \<not> (case lastAccepted of None \<Rightarrow> False | Some l \<Rightarrow> range_end l > range_start f)
      then f # accept_scan member' (Some f) fs
      else accept_scan member' lastAccepted fs)"

text \<open>
  The number of pairs of a list, one fix in front of the other, that the overlap test
  rejects.
\<close>

fun overlap_count :: "AutoFix list \<Rightarrow> nat" where
  "overlap_count [] = 0"
| "overlap_count (f # fs) = length (filter (overlaps (Some f)) fs) + overlap_count fs"

text \<open>
  The fourth scenario of the specification: five fixes of the rule \<open>semi\<close>, of which the two
  at \<open>[10,14)\<close> and \<open>[12,16)\<close> overlap, and one fix of another rule. The request comes for
  the diagnostic of the fix at \<open>[0,2)\<close>, in a document of one line.
\<close>

definition scenario_four :: Edits where
  "scenario_four =
     [(''[0,20,0,22]-semi'', mkFix ''semi'' 20 22),
      (''[0,12,0,16]-semi'', mkFix ''semi'' 12 16),
      (''[0,0,0,2]-semi'', mkFix ''semi'' 0 2),
      (''[0,1,0,3]-quotes'', mkFix ''quotes'' 1 3),
      (''[0,10,0,14]-semi'', mkFix ''semi'' 10 14),
      (''[0,5,0,7]-semi'', mkFix ''semi'' 5 7)]"

definition scenario_four_document :: TextDocument where
  "scenario_four_document =
     \<lparr> uri = ''file:///a.js'', version = 1, getText = ''x'',
       positionAt = (\<lambda>offset. \<lparr> line = 0, character = offset \<rparr>) \<rparr>"

definition scenario_four_state :: ServerState where
  "scenario_four_state =
     \<lparr> documents = [''file:///a.js'' \<mapsto> scenario_four_document],
       codeActions = [''file:///a.js'' \<mapsto> scenario_four],
       commands = None \<rparr>"

definition scenario_four_params :: CodeActionParams where
  "scenario_four_params =
     \<lparr> textDocument_uri = ''file:///a.js'',
       context_diagnostics =
         [\<lparr> message = ''Missing semicolon. (semi)'', severity = Error, source = ''eslint'',
            range' = \<lparr> start = \<lparr> line = 0, character = 0 \<rparr>,
                       end' = \<lparr> line = 0, character = 2 \<rparr> \<rparr>,
            code = Code ''semi'' \<rparr>] \<rparr>"

definition scenario_one :: Edits where
  "scenario_one =
     [(''kc'', mkFix ''c'' 8 10), (''kb'', mkFix ''b'' 3 8), (''ka'', mkFix ''a'' 0 5)]"

definition scenario_ties :: Edits where
  "scenario_ties =
     [(''k1'', mkFix ''x'' 5 9), (''k2'', mkFix ''y'' 0 5), (''k3'', mkFix ''x'' 0 0),
      (''k4'', mkFix ''y'' 5 7), (''k5'', mkFix ''z'' 3 8)]"

section \<open>The execute-command request handler\<close>

record VersionedTextDocumentIdentifier =
  id_uri :: string
  id_version :: int

record ExecuteCommandParams =
  command_id :: string
  arguments :: "VersionedTextDocumentIdentifier list"

text \<open>
  \<^verbatim>\<open>computeAllFixes\<close> returns \<^verbatim>\<open>undefined\<close> (\<open>None\<close>) or the text edits of the overlap-free
  fixes of the document.
\<close>

definition computeAllFixes ::
  "VersionedTextDocumentIdentifier \<Rightarrow> ServerState \<Rightarrow> TextEdit list option" where
  "computeAllFixes identifier st =
     (let uri' = id_uri identifier in
      case documents st uri' of
        None \<Rightarrow> None
      | Some textDocument \<Rightarrow>
          if id_version identifier \<noteq> version textDocument then None
          else
            (case codeActions st uri' of
               None \<Rightarrow> None
             | Some edits \<Rightarrow>
                 if \<not> isEmpty edits
                 then Some (map (createTextEdit textDocument) (getOverlapFree edits))
                 else None))"

text \<open>
  What the handler answers: the empty object at once, without touching the workspace, or the
  promise of \<^verbatim>\<open>connection.workspace.applyEdit\<close> for a workspace change.
\<close>

datatype ExecuteResult = EmptyResult | ApplyEdit WorkspaceChange

definition executeCommandHandler ::
  "ExecuteCommandParams \<Rightarrow> ServerState \<Rightarrow> ExecuteResult Outcome" where
  "executeCommandHandler params st =
     (if command_id params = applyAutoFix then
        (case arguments params of
           [] \<Rightarrow> TypeError
         | identifier # _ \<Rightarrow>
             (case computeAllFixes identifier st of
                None \<Rightarrow> Returned EmptyResult
              | Some edits \<Rightarrow>
                  Returned (ApplyEdit
                    \<lparr> change_uri = id_uri identifier, change_version = id_version identifier,
                      textEdits = edits \<rparr>)))
      else
        (case commands st of
           None \<Rightarrow> TypeError
         | Some commands' \<Rightarrow>
             (case commands' (command_id params) of
                None \<Rightarrow> Returned EmptyResult
              | Some workspaceChange \<Rightarrow> Returned (ApplyEdit workspaceChange))))"

text \<open>The request's \<^verbatim>\<open>versionProvider\<close>: the identifier's version for \<^verbatim>\<open>applyAutoFix\<close>.\<close>

definition executeCommandVersion :: "ExecuteCommandParams \<Rightarrow> int option Outcome" where
  "executeCommandVersion params =
     (if command_id params = applyAutoFix then
        (case arguments params of
           [] \<Rightarrow> TypeError
         | identifier # _ \<Rightarrow> Returned (Some (id_version identifier)))
      else Returned None)"

text \<open>A stale and a fresh \<^verbatim>\<open>applyAutoFix\<close> request against the first scenario's fixes.\<close>

definition scenario_apply_state :: ServerState where
  "scenario_apply_state =
     \<lparr> documents = [''file:///a.js'' \<mapsto> scenario_four_document\<lparr>version := 2\<rparr>],
       codeActions = [''file:///a.js'' \<mapsto> scenario_one],
       commands = None \<rparr>"

definition scenario_apply :: "int \<Rightarrow> ExecuteCommandParams" where
  "scenario_apply v =
     \<lparr> command_id = applyAutoFix,
       arguments = [\<lparr> id_uri = ''file:///a.js'', id_version = v \<rparr>] \<rparr>"

section \<open>Validation\<close>

text \<open>
  A finding of the lint library. \<^verbatim>\<open>endLine\<close>, \<^verbatim>\<open>endColumn\<close> and \<^verbatim>\<open>fix\<close>
  (here \<open>problem_fix\<close>) are optional, and \<^verbatim>\<open>ruleId\<close> is \<^verbatim>\<open>null\<close> for a finding that no
  rule produced.
\<close>

record ESLintProblem =
  problem_line :: int
  problem_column :: int
  endLine :: "int option"
  endColumn :: "int option"
  problem_severity :: int
  problem_ruleId :: "string option"
  problem_message :: string
  problem_fix :: "ESLintAutoFixEdit option"

text \<open>
  Of a report, the fields that \<^verbatim>\<open>validate\<close> reads. An entry of \<^verbatim>\<open>messages\<close> may be
  \<^verbatim>\<open>null\<close>, which \<^verbatim>\<open>if (problem)\<close> passes over.
\<close>

record ESLintDocumentReport =
  messages :: "ESLintProblem option list"

record ESLintReport =
  results :: "ESLintDocumentReport list"

text \<open>
  The lint library, seen from \<^verbatim>\<open>validate\<close>: the constructor of the engine throws, or
  \<^verbatim>\<open>executeOnText\<close> throws, or it returns a report (or nothing).
\<close>

datatype LintRun = EngineThrows | ExecuteThrows | Report "ESLintReport option"

text \<open>Of the settings of a document, the fields that \<^verbatim>\<open>validate\<close> reads on this path.\<close>

record TextDocumentSettings =
  autoFix :: bool
  executeOnText :: "string \<Rightarrow> LintRun"

definition convertSeverity :: "int \<Rightarrow> DiagnosticSeverity" where
  "convertSeverity severity' =
     (if severity' = 1 then Warning else if severity' = 2 then Error else Error)"

definition makeDiagnostic :: "ESLintProblem \<Rightarrow> Diagnostic" where
  "makeDiagnostic problem =
     (let message' =
            (case problem_ruleId problem of
               Some r \<Rightarrow> problem_message problem @ '' ('' @ r @ '')''
             | None \<Rightarrow> problem_message problem);
          startLine = max 0 (problem_line problem - 1);
          startChar = max 0 (problem_column problem - 1);
          endLine' = (case endLine problem of Some l \<Rightarrow> max 0 (l - 1) | None \<Rightarrow> startLine);
          endChar = (case endColumn problem of Some c \<Rightarrow> max 0 (c - 1) | None \<Rightarrow> startChar)
      in \<lparr> message = message',
           severity = convertSeverity (problem_severity problem),
           source = ''eslint'',
           range' = \<lparr> start = \<lparr> line = startLine, character = startChar \<rparr>,
                      end' = \<lparr> line = endLine', character = endChar \<rparr> \<rparr>,
           code = (case problem_ruleId problem of None \<Rightarrow> NullCode | Some r \<Rightarrow> Code r) \<rparr>)"

text \<open>
  \<^verbatim>\<open>recordCodeAction\<close> on the store \<^verbatim>\<open>codeActions\<close>. \<^verbatim>\<open>!problem.ruleId\<close> holds for
  \<^verbatim>\<open>null\<close> and for the empty string.
\<close>

definition recordCodeAction ::
  "TextDocument \<Rightarrow> Diagnostic \<Rightarrow> ESLintProblem \<Rightarrow> (string \<rightharpoonup> Edits) \<Rightarrow> (string \<rightharpoonup> Edits)" where
  "recordCodeAction document diagnostic problem store =
     (case problem_fix problem of
        None \<Rightarrow> store
      | Some fix' \<Rightarrow>
          (case problem_ruleId problem of
             None \<Rightarrow> store
           | Some r \<Rightarrow>
               if r = [] then store
               else
                 let uri' = uri document;
                     edits = (case store uri' of None \<Rightarrow> [] | Some edits' \<Rightarrow> edits')
                 in store(uri' \<mapsto>
                      AList.update (computeKey diagnostic)
                        \<lparr> label = ''Fix this '' @ r @ '' problem'',
                          documentVersion = version document, ruleId = r, edit = fix' \<rparr>
                        edits)))"

text \<open>
  The body of \<^verbatim>\<open>docReport.messages.forEach\<close>; its variables are the store and the
  \<^verbatim>\<open>diagnostics\<close> collected so far.
\<close>

definition validate_step ::
  "TextDocument \<Rightarrow> TextDocumentSettings \<Rightarrow> (string \<rightharpoonup> Edits) \<times> Diagnostic list \<Rightarrow>
   ESLintProblem option \<Rightarrow> (string \<rightharpoonup> Edits) \<times> Diagnostic list" where
  "validate_step document settings vars problem' =
     (case vars of (store, diagnostics) \<Rightarrow>
        (case problem' of
           None \<Rightarrow> (store, diagnostics)
         | Some problem \<Rightarrow>
             let diagnostic = makeDiagnostic problem
             in (if autoFix settings then recordCodeAction document diagnostic problem store
                 else store,
                 diagnostics @ [diagnostic])))"

text \<open>
  The findings that \<^verbatim>\<open>validate\<close> walks over: the \<^verbatim>\<open>messages\<close> of \<^verbatim>\<open>report.results[0]\<close>, and
  none when there is no report or \<^verbatim>\<open>report.results\<close> is empty.
\<close>

definition reported_problems :: "ESLintReport option \<Rightarrow> ESLintProblem option list" where
  "reported_problems report =
     (case report of
        None \<Rightarrow> []
      | Some report' \<Rightarrow>
          (case results report' of
             [] \<Rightarrow> []
           | docReport # _ \<Rightarrow> messages docReport))"

text \<open>
  \<^verbatim>\<open>validate\<close>, without the changes of the working directory, which touch neither the
  store nor the diagnostics. The engine is constructed first, then the document's entry of
  the store is deleted, then the text is linted. The result is the new state with what was
  sent by \<^verbatim>\<open>connection.sendDiagnostics\<close> (nothing when \<^verbatim>\<open>publishDiagnostics\<close> is off), or the
  error that passes to the caller.
\<close>

definition validate ::
  "TextDocument \<Rightarrow> TextDocumentSettings \<Rightarrow> bool \<Rightarrow> ServerState \<Rightarrow>
   ServerState \<times> Diagnostic list option Outcome" where
  "validate document settings publishDiagnostics st =
     (let content = getText document;
          uri' = uri document
      in case executeOnText settings content of
           EngineThrows \<Rightarrow> (st, LintError)
         | ExecuteThrows \<Rightarrow> (st\<lparr>codeActions := (codeActions st)(uri' := None)\<rparr>, LintError)
         | Report report \<Rightarrow>
             let cleaned = (codeActions st)(uri' := None)
             in (case foldl (validate_step document settings) (cleaned, [])
                       (reported_problems report) of
                   (store, diagnostics) \<Rightarrow>
                     (st\<lparr>codeActions := store\<rparr>,
                      Returned (if publishDiagnostics then Some diagnostics else None))))"

text \<open>A finding counts for the store when it has a fix and a rule id that is not empty.\<close>

definition fixable :: "ESLintProblem \<Rightarrow> bool" where
  "fixable problem =
     (problem_fix problem \<noteq> None \<and> problem_ruleId problem \<noteq> None \<and> problem_ruleId problem \<noteq> Some [])"

text \<open>The fixes that the store holds for a document; none when it has no entry.\<close>

definition recorded :: "(string \<rightharpoonup> Edits) \<Rightarrow> string \<Rightarrow> Edits" where
  "recorded store uri' = (case store uri' of None \<Rightarrow> [] | Some edits \<Rightarrow> edits)"

text \<open>
  A validation pass over a document at version 7 whose store still holds the fixes of the
  first scenario: the report has a finding of the rule \<open>semi\<close> with a fix and a finding
  without a rule (\<^verbatim>\<open>ruleId\<close> is \<^verbatim>\<open>null\<close>) that carries a fix as well.
\<close>

definition scenario_pass_document :: TextDocument where
  "scenario_pass_document =
     \<lparr> uri = ''file:///a.js'', version = 7, getText = ''let x = 1'',
       positionAt = (\<lambda>offset. \<lparr> line = 0, character = offset \<rparr>) \<rparr>"

definition scenario_finding :: ESLintProblem where
  "scenario_finding =
     \<lparr> problem_line = 1, problem_column = 10, endLine = None, endColumn = None,
       problem_severity = 2, problem_ruleId = Some ''semi'',
       problem_message = ''Missing semicolon.'',
       problem_fix = Some \<lparr> fix_range = (9, 9), fix_text = '';'' \<rparr> \<rparr>"

definition scenario_finding_norule :: ESLintProblem where
  "scenario_finding_norule =
     \<lparr> problem_line = 1, problem_column = 1, endLine = None, endColumn = None,
       problem_severity = 2, problem_ruleId = None,
       problem_message = ''Unused directive.'',
       problem_fix = Some \<lparr> fix_range = (0, 3), fix_text = [] \<rparr> \<rparr>"

definition scenario_report :: ESLintReport where
  "scenario_report =
     \<lparr> results = [\<lparr> messages = [Some scenario_finding, Some scenario_finding_norule] \<rparr>] \<rparr>"

definition scenario_settings :: "bool \<Rightarrow> TextDocumentSettings" where
  "scenario_settings autoFix' =
     \<lparr> autoFix = autoFix', executeOnText = (\<lambda>content. Report (Some scenario_report)) \<rparr>"

definition scenario_settings_throwing :: TextDocumentSettings where
  "scenario_settings_throwing = \<lparr> autoFix = True, executeOnText = (\<lambda>content. ExecuteThrows) \<rparr>"

definition scenario_settings_no_engine :: TextDocumentSettings where
  "scenario_settings_no_engine = \<lparr> autoFix = True, executeOnText = (\<lambda>content. EngineThrows) \<rparr>"

definition scenario_pass_state :: ServerState where
  "scenario_pass_state =
     \<lparr> documents = [''file:///a.js'' \<mapsto> scenario_pass_document],
       codeActions = [''file:///a.js'' \<mapsto> scenario_one],
       commands = None \<rparr>"

section \<open>The buffered message queue\<close>

text \<open>
  A queued message is a request or a notification. Its arguments are the method, the
  parameters and the \<^verbatim>\<open>documentVersion\<close> stamped at enqueue time (\<open>None\<close> for \<^verbatim>\<open>undefined\<close>);
  a request also has the pair \<^verbatim>\<open>resolve\<close>/\<^verbatim>\<open>reject\<close> of the caller's promise, named by a
  number, and its cancellation token, named by a number. \<^verbatim>\<open>Request.is\<close> tells the two
  apart by the presence of the token and the callbacks.
\<close>

datatype 'p Message =
    Request string 'p "int option" nat nat
  | Notification string 'p "int option"

datatype ErrorCodes = RequestCancelled

text \<open>
  What can be observed of the queue: a message is pushed, a message is shifted off the head,
  a handler is called, a caller's promise is rejected, resolved, or left to the promise that
  the handler returned, and the \<^verbatim>\<open>TypeError\<close> of a method without a registration.
\<close>

datatype ('p, 'r) Event =
    Pushed "'p Message"
  | Shifted "'p Message"
  | RequestHandlerCalled string 'p
  | NotificationHandlerCalled string 'p
  | Rejected nat ErrorCodes
  | Resolved nat 'r
  | Awaited nat
  | Threw

text \<open>
  Handlers and version providers read and change the state of the server around the queue,
  of type \<open>'w\<close>. A request handler returns a value or a promise. A notification handler may
  call \<^verbatim>\<open>messageQueue.addNotificationMessage\<close> (as \<^verbatim>\<open>environmentChanged\<close> and
  \<^verbatim>\<open>validateMany\<close> do): it returns the method, parameters and version of each call.
  The handlers of the source do not read the cancellation token that a request handler is
  given. Handlers and providers are taken to return here, not to throw.
\<close>

datatype 'r HandlerResult = Value 'r | Thenable

record ('p, 'w, 'r) RequestRegistration =
  request_handler :: "'p \<Rightarrow> 'w \<Rightarrow> 'w \<times> 'r HandlerResult"
  request_versionProvider :: "('p \<Rightarrow> 'w \<Rightarrow> int option) option"

record ('p, 'w) NotificationRegistration =
  notification_handler :: "'p \<Rightarrow> 'w \<Rightarrow> 'w \<times> (string \<times> 'p \<times> int) list"
  notification_versionProvider :: "('p \<Rightarrow> 'w \<Rightarrow> int option) option"

text \<open>
  The queue with its surroundings: the fields of \<^verbatim>\<open>BufferedMessageQueue\<close> (\<open>timer\<close> tells
  whether a \<^verbatim>\<open>setImmediate\<close> callback is pending), the state \<open>world\<close> that handlers and
  providers work on, the tokens whose \<^verbatim>\<open>isCancellationRequested\<close> is set, and the events
  so far.
\<close>

record ('p, 'w, 'r) Server =
  queue :: "'p Message list"
  requestHandlers :: "string \<rightharpoonup> ('p, 'w, 'r) RequestRegistration"
  notificationHandlers :: "string \<rightharpoonup> ('p, 'w) NotificationRegistration"
  timer :: bool
  world :: 'w
  cancelled :: "nat \<Rightarrow> bool"
  trace :: "('p, 'r) Event list"

definition trigger :: "('p, 'w, 'r) Server \<Rightarrow> ('p, 'w, 'r) Server" where
  "trigger s = (if timer s \<or> length (queue s) = 0 then s else s\<lparr>timer := True\<rparr>)"

definition push :: "'p Message \<Rightarrow> ('p, 'w, 'r) Server \<Rightarrow> ('p, 'w, 'r) Server" where
  "push message' s = s\<lparr>queue := queue s @ [message'], trace := trace s @ [Pushed message']\<rparr>"

text \<open>
  The callback that \<^verbatim>\<open>registerRequest\<close> hands to the connection: it stamps the message
  with \<^verbatim>\<open>versionProvider ? versionProvider(params) : undefined\<close>, for the provider registered
  with the method.
\<close>

definition onRequest ::
  "string \<Rightarrow> 'p \<Rightarrow> nat \<Rightarrow> nat \<Rightarrow> ('p, 'w, 'r) Server \<Rightarrow> ('p, 'w, 'r) Server" where
  "onRequest method params resolve_reject token s =
     (let documentVersion' =
            (case requestHandlers s method of
               None \<Rightarrow> None
             | Some elem \<Rightarrow>
                 (case request_versionProvider elem of
                    None \<Rightarrow> None
                  | Some versionProvider \<Rightarrow> versionProvider params (world s)))
      in trigger (push (Request method params documentVersion' resolve_reject token) s))"

text \<open>The callback that \<^verbatim>\<open>registerNotification\<close> hands to the connection.\<close>

definition onNotification ::
  "string \<Rightarrow> 'p \<Rightarrow> ('p, 'w, 'r) Server \<Rightarrow> ('p, 'w, 'r) Server" where
  "onNotification method params s =
     (let documentVersion' =
            (case notificationHandlers s method of
               None \<Rightarrow> None
             | Some elem \<Rightarrow>
                 (case notification_versionProvider elem of
                    None \<Rightarrow> None
                  | Some versionProvider \<Rightarrow> versionProvider params (world s)))
      in trigger (push (Notification method params documentVersion') s))"

definition addNotificationMessage ::
  "string \<Rightarrow> 'p \<Rightarrow> int \<Rightarrow> ('p, 'w, 'r) Server \<Rightarrow> ('p, 'w, 'r) Server" where
  "addNotificationMessage method params version' s =
     trigger (push (Notification method params (Some version')) s)"

text \<open>
  The staleness test of \<^verbatim>\<open>processQueue\<close>, the same for requests and notifications:
  \<^verbatim>\<open>elem.versionProvider && message.documentVersion !== void 0 &&
  message.documentVersion !== elem.versionProvider(message.params)\<close>.
\<close>

definition stale :: "('p \<Rightarrow> 'w \<Rightarrow> int option) option \<Rightarrow> int option \<Rightarrow> 'p \<Rightarrow> 'w \<Rightarrow> bool" where
  "stale versionProvider' documentVersion' params w =
     (case versionProvider' of
        None \<Rightarrow> False
      | Some versionProvider \<Rightarrow>
          documentVersion' \<noteq> None \<and> documentVersion' \<noteq> versionProvider params w)"

definition emit :: "('p, 'r) Event \<Rightarrow> ('p, 'w, 'r) Server \<Rightarrow> ('p, 'w, 'r) Server" where
  "emit event s = s\<lparr>trace := trace s @ [event]\<rparr>"

text \<open>
  \<^verbatim>\<open>processQueue\<close>. The three \<^verbatim>\<open>return\<close> statements inside the branches leave the
  function before the \<^verbatim>\<open>this.trigger()\<close> of its last line.
\<close>

definition processQueue :: "('p, 'w, 'r) Server \<Rightarrow> ('p, 'w, 'r) Server" where
  "processQueue s =
     (case queue s of
        [] \<Rightarrow> s
      | message' # rest \<Rightarrow>
          let s1 = emit (Shifted message') (s\<lparr>queue := rest\<rparr>) in
          (case message' of
             Request method params documentVersion' resolve_reject token \<Rightarrow>
               if cancelled s1 token then emit (Rejected resolve_reject RequestCancelled) s1
               else
                 (case requestHandlers s1 method of
                    None \<Rightarrow> emit Threw s1
                  | Some elem \<Rightarrow>
                      if stale (request_versionProvider elem) documentVersion' params (world s1)
                      then emit (Rejected resolve_reject RequestCancelled) s1
                      else
                        (case request_handler elem params (world s1) of
                           (world', result) \<Rightarrow>
                             let s2 = emit (RequestHandlerCalled method params)
                                        (s1\<lparr>world := world'\<rparr>)
                             in trigger
                                  (case result of
                                     Thenable \<Rightarrow> emit (Awaited resolve_reject) s2
                                   | Value value' \<Rightarrow> emit (Resolved resolve_reject value') s2)))
           | Notification method params documentVersion' \<Rightarrow>
               (case notificationHandlers s1 method of
                  None \<Rightarrow> emit Threw s1
                | Some elem \<Rightarrow>
                    if stale (notification_versionProvider elem) documentVersion' params (world s1)
                    then s1
                    else
                      (case notification_handler elem params (world s1) of
                         (world', added) \<Rightarrow>
                           let s2 = emit (NotificationHandlerCalled method params)
                                      (s1\<lparr>world := world'\<rparr>)
                           in trigger
                                (foldl (\<lambda>s' (method', params', version').
                                          addNotificationMessage method' params' version' s')
                                   s2 added)))))"

text \<open>The \<^verbatim>\<open>setImmediate\<close> callback that \<^verbatim>\<open>trigger\<close> schedules; it runs only when pending.\<close>

definition tick :: "('p, 'w, 'r) Server \<Rightarrow> ('p, 'w, 'r) Server" where
  "tick s = (if timer s then processQueue (s\<lparr>timer := False\<rparr>) else s)"

text \<open>
  What happens to the queue from outside, in any order: a request or a notification
  arrives on the connection, a document event calls \<^verbatim>\<open>addNotificationMessage\<close>, the event
  loop runs the pending callback, a token is cancelled, the state around the queue changes
  (a document is edited), and a promise that a handler returned settles.
\<close>

datatype ('p, 'w, 'r) Action =
    RequestArrives string 'p nat nat
  | NotificationArrives string 'p
  | AddNotification string 'p int
  | Tick
  | Cancel nat
  | Change "'w \<Rightarrow> 'w"
  | Settles nat 'r

fun act :: "('p, 'w, 'r) Action \<Rightarrow> ('p, 'w, 'r) Server \<Rightarrow> ('p, 'w, 'r) Server" where
  "act (RequestArrives method params resolve_reject token) s =
     onRequest method params resolve_reject token s"
| "act (NotificationArrives method params) s = onNotification method params s"
| "act (AddNotification method params version') s =
     addNotificationMessage method params version' s"
| "act Tick s = tick s"
| "act (Cancel token) s = s\<lparr>cancelled := (cancelled s)(token := True)\<rparr>"
| "act (Change f) s = s\<lparr>world := f (world s)\<rparr>"
| "act (Settles resolve_reject value') s = emit (Resolved resolve_reject value') s"

definition run :: "('p, 'w, 'r) Server \<Rightarrow> ('p, 'w, 'r) Action list \<Rightarrow> ('p, 'w, 'r) Server" where
  "run s actions = foldl (\<lambda>s' a. act a s') s actions"

text \<open>The messages pushed and the messages shifted so far, each in order of time.\<close>

fun pushed :: "('p, 'r) Event list \<Rightarrow> 'p Message list" where
  "pushed [] = []"
| "pushed (Pushed m # events) = m # pushed events"
| "pushed (_ # events) = pushed events"

fun shifted :: "('p, 'r) Event list \<Rightarrow> 'p Message list" where
  "shifted [] = []"
| "shifted (Shifted m # events) = m # shifted events"
| "shifted (_ # events) = shifted events"


text \<open>The calls of handlers so far: method and parameters.\<close>

fun handled :: "('p, 'r) Event list \<Rightarrow> (string \<times> 'p) list" where
  "handled [] = []"
| "handled (RequestHandlerCalled method params # events) = (method, params) # handled events"
| "handled (NotificationHandlerCalled method params # events) = (method, params) # handled events"
| "handled (_ # events) = handled events"

text \<open>
  A queue for the scenarios. Parameters are document uris; the state around the queue maps
  a uri to the live version of the open document. The code-action request and the validate
  notification are registered with version providers that read that live version, as in the
  source; their handlers leave the state alone here.
\<close>

definition scenario_queue :: "(string, string \<rightharpoonup> int, string) Server" where
  "scenario_queue =
     \<lparr> queue = [],
       requestHandlers =
         [''textDocument/codeAction'' \<mapsto>
            \<lparr> request_handler = (\<lambda>params w. (w, Value ''[]'')),
              request_versionProvider = Some (\<lambda>params w. w params) \<rparr>],
       notificationHandlers =
         [''eslint/validate'' \<mapsto>
            \<lparr> notification_handler = (\<lambda>params w. (w, [])),
              notification_versionProvider = Some (\<lambda>params w. w params) \<rparr>],
       timer = False,
       world = [''file:///a.js'' \<mapsto> 1],
       cancelled = (\<lambda>token. False),
       trace = [] \<rparr>"

text \<open>
  A code-action request arrives while the document is not open, and the document is opened
  at version 3 before the request is dispatched.
\<close>

definition scenario_unstamped :: "(string, string \<rightharpoonup> int, string) Server" where
  "scenario_unstamped =
     run (scenario_queue\<lparr>world := Map.empty\<rparr>)
       [RequestArrives ''textDocument/codeAction'' ''file:///a.js'' 1 1,
        Change (\<lambda>w. w(''file:///a.js'' \<mapsto> 3))]"

text \<open>A code-action request arrives and is cancelled before it is dispatched.\<close>

definition scenario_cancelled :: "(string, string \<rightharpoonup> int, string) Server" where
  "scenario_cancelled =
     run scenario_queue
       [RequestArrives ''textDocument/codeAction'' ''file:///a.js'' 1 1, Cancel 1]"

text \<open>A code-action request arrives and the document changes before it is dispatched.\<close>

definition scenario_superseded :: "(string, string \<rightharpoonup> int, string) Server" where
  "scenario_superseded =
     run scenario_queue
       [RequestArrives ''textDocument/codeAction'' ''file:///a.js'' 1 1,
        Change (\<lambda>w. w(''file:///a.js'' \<mapsto> 2))]"

text \<open>A code-action request arrives and nothing changes before it is dispatched.\<close>

definition scenario_current :: "(string, string \<rightharpoonup> int, string) Server" where
  "scenario_current =
     run scenario_queue [RequestArrives ''textDocument/codeAction'' ''file:///a.js'' 1 1]"

text \<open>
  The third scenario of the specification: a validate notification is enqueued for version
  1 of a document, the document changes to version 2 and a second validate notification is
  enqueued, all before the first dispatch.
\<close>

definition scenario_two_versions :: "(string, string \<rightharpoonup> int, string) Server" where
  "scenario_two_versions =
     run scenario_queue
       [AddNotification ''eslint/validate'' ''file:///a.js'' 1,
        Change (\<lambda>w. w(''file:///a.js'' \<mapsto> 2)),
        AddNotification ''eslint/validate'' ''file:///a.js'' 2]"

text \<open>
  A validate notification that carries no snapshot, with the document at version 3 when it
  is dispatched.
\<close>

definition scenario_unstamped_notification :: "(string, string \<rightharpoonup> int, string) Server" where
  "scenario_unstamped_notification =
     (push (Notification ''eslint/validate'' ''file:///a.js'' None)
        (scenario_queue\<lparr>world := [''file:///a.js'' \<mapsto> 3]\<rparr>))\<lparr>timer := True\<rparr>"

text \<open>
  The request that was stamped \<^verbatim>\<open>undefined\<close> is cancelled before it is dispatched.
\<close>

definition scenario_unstamped_cancelled :: "(string, string \<rightharpoonup> int, string) Server" where
  "scenario_unstamped_cancelled = act (Cancel 1) scenario_unstamped"


section \<open>Sorting\<close>

lemma compareFixes_le_iff: "compareFixes a b \<le> 0 \<longleftrightarrow> sorts_before a b"
  by (auto simp: compareFixes_def sorts_before_def Let_def)

lemma sorts_before_total: "\<not> sorts_before a b \<Longrightarrow> sorts_before b a"
  by (auto simp: sorts_before_def)

lemma sorts_before_trans: "sorts_before a b \<Longrightarrow> sorts_before b c \<Longrightarrow> sorts_before a c"
  by (auto simp: sorts_before_def)

lemma set_sort_insert: "set (sort_insert comparefn x ys) = insert x (set ys)"
  by (induction ys) auto

lemma mset_sort_insert: "mset (sort_insert comparefn x ys) = add_mset x (mset ys)"
  by (induction ys) auto

lemma mset_foldl_sort_insert:
  "mset (foldl (\<lambda>acc x. sort_insert comparefn x acc) acc xs) = mset acc + mset xs"
  by (induction xs arbitrary: acc) (auto simp: mset_sort_insert)

lemma mset_array_sort: "mset (array_sort comparefn xs) = mset xs"
  by (simp add: array_sort_def mset_foldl_sort_insert)

lemma sorted_sort_insert:
  "sorted_wrt sorts_before ys \<Longrightarrow> sorted_wrt sorts_before (sort_insert compareFixes x ys)"
proof (induction ys)
  case Nil
  then show ?case by simp
next
  case (Cons y ys)
  show ?case
  proof (cases "compareFixes y x > 0")
    case True
    then have xy: "sorts_before x y"
      using compareFixes_le_iff [of y x] sorts_before_total [of y x] by auto
    have "\<forall>z\<in>set ys. sorts_before x z"
      using Cons.prems xy by (auto intro: sorts_before_trans)
    with True xy Cons.prems show ?thesis by simp
  next
    case False
    then have "sorts_before y x"
      using compareFixes_le_iff [of y x] by auto
    with False Cons show ?thesis
      by (auto simp: set_sort_insert)
  qed
qed

lemma sorted_foldl_sort_insert:
  "sorted_wrt sorts_before acc \<Longrightarrow>
   sorted_wrt sorts_before (foldl (\<lambda>acc x. sort_insert compareFixes x acc) acc xs)"
  by (induction xs arbitrary: acc) (auto simp: sorted_sort_insert)

lemma sorted_getAllSorted: "sorted_wrt sorts_before (getAllSorted edits)"
  by (simp add: getAllSorted_def array_sort_def sorted_foldl_sort_insert)

lemma sorts_before_start: "sorts_before a b \<Longrightarrow> range_start a \<le> range_start b"
  by (auto simp: sorts_before_def)

lemma start_sorted_getAllSorted:
  "sorted_wrt (\<lambda>a b. range_start a \<le> range_start b) (getAllSorted edits)"
  using sorted_getAllSorted [of edits]
  by (rule sorted_wrt_mono_rel [rotated]) (simp add: sorts_before_start)

text \<open>
  Claim C7. \<^verbatim>\<open>getAllSorted()\<close> returns all the fixes of the snapshot, each as often as
  the snapshot holds it, and any fix that stands before another one in the result has the
  smaller range start or, when the starts are equal, either has end offset 0 or else the
  other one's end offset is not 0 and is not smaller than its own.
\<close>

theorem getAllSorted_order:
  "mset (getAllSorted edits) = mset (map snd edits) \<and>
   sorted_wrt sorts_before (getAllSorted edits)"
  by (simp add: sorted_getAllSorted) (simp add: getAllSorted_def mset_array_sort)

text \<open>
  A snapshot with a tie at start 5 and a tie at start 0, one of whose edits ends at 0.
\<close>

theorem getAllSorted_order_witness:
  "getAllSorted scenario_ties =
     [mkFix ''x'' 0 0, mkFix ''y'' 0 5, mkFix ''z'' 3 8, mkFix ''y'' 5 7, mkFix ''x'' 5 9] \<and>
   mset (getAllSorted scenario_ties) = mset (map snd scenario_ties) \<and>
   sorted_wrt sorts_before (getAllSorted scenario_ties)"
  using getAllSorted_order [of scenario_ties]
  by (simp add: scenario_ties_def getAllSorted_def array_sort_def compareFixes_def mkFix_def)

section \<open>The greedy scan\<close>

lemma overlapFree_loop_eq:
  "overlapFree_loop l result rest = result @ keep_after l rest"
  by (induction rest arbitrary: l result) (auto simp: overlaps_def)

lemma getOverlapFree_greedy: "getOverlapFree edits = greedy_scan (getAllSorted edits)"
  by (cases "getAllSorted edits")
     (auto simp: getOverlapFree_def greedy_scan_def Let_def overlapFree_loop_eq split: list.splits)

lemma set_keep_after: "set (keep_after l xs) \<subseteq> set xs"
  by (induction xs arbitrary: l) auto

lemma sorted_wrt_keep_after: "sorted_wrt P xs \<Longrightarrow> sorted_wrt P (keep_after l xs)"
proof (induction xs arbitrary: l)
  case Nil
  then show ?case by simp
next
  case (Cons c rest)
  then show ?case using set_keep_after [of c rest] by auto
qed

lemma keep_after_clear:
  "sorted_wrt (\<lambda>a b. range_start a \<le> range_start b) xs \<Longrightarrow>
   \<forall>b\<in>set (keep_after l xs). range_end l \<le> range_start b"
proof (induction xs arbitrary: l)
  case Nil
  then show ?case by simp
next
  case (Cons c rest)
  show ?case
  proof (cases "range_end l \<le> range_start c")
    case True
    have "\<forall>b\<in>set (keep_after c rest). range_start c \<le> range_start b"
      using Cons.prems set_keep_after [of c rest] by auto
    with True show ?thesis by fastforce
  next
    case False
    with Cons show ?thesis by simp
  qed
qed

lemma keep_after_disjoint:
  "sorted_wrt (\<lambda>a b. range_start a \<le> range_start b) xs \<Longrightarrow>
   sorted_wrt (\<lambda>a b. \<not> range_end a > range_start b) (keep_after l xs)"
proof (induction xs arbitrary: l)
  case Nil
  then show ?case by simp
next
  case (Cons c rest)
  then show ?case
    using keep_after_clear [of rest c] by (auto simp: not_less)
qed

lemma greedy_scan_start:
  assumes "sorted_wrt (\<lambda>a b. range_start a \<le> range_start b) xs"
  shows "sorted_wrt (\<lambda>a b. range_start a \<le> range_start b) (greedy_scan xs)"
proof (cases xs)
  case Nil
  then show ?thesis by (simp add: greedy_scan_def)
next
  case (Cons x rest)
  with assms have "sorted_wrt (\<lambda>a b. range_start a \<le> range_start b) (keep_after x rest)"
    by (simp add: sorted_wrt_keep_after)
  moreover have "\<forall>b\<in>set (keep_after x rest). range_start x \<le> range_start b"
    using assms Cons set_keep_after [of x rest] by auto
  ultimately show ?thesis using Cons by (simp add: greedy_scan_def)
qed

lemma greedy_scan_disjoint:
  assumes "sorted_wrt (\<lambda>a b. range_start a \<le> range_start b) xs"
  shows "sorted_wrt (\<lambda>a b. \<not> range_end a > range_start b) (greedy_scan xs)"
proof (cases xs)
  case Nil
  then show ?thesis by (simp add: greedy_scan_def)
next
  case (Cons x rest)
  with assms have r: "sorted_wrt (\<lambda>a b. range_start a \<le> range_start b) rest" by simp
  show ?thesis
    using Cons keep_after_clear [OF r, of x] keep_after_disjoint [OF r, of x]
    by (simp add: greedy_scan_def not_less)
qed

text \<open>
  Claim C1. For every snapshot, the result of \<^verbatim>\<open>getOverlapFree()\<close> ascends by range start,
  holds no fix \<open>a\<close> in front of a fix \<open>b\<close> with \<open>a.range.end > b.range.start\<close>, and is
  what the greedy scan of the specification makes of \<^verbatim>\<open>getAllSorted()\<close>: the first element
  is kept, and a later candidate is kept and becomes the new last one only if
  \<open>last.range.end \<le> candidate.range.start\<close>.
\<close>

theorem getOverlapFree_sound:
  "sorted_wrt (\<lambda>a b. range_start a \<le> range_start b) (getOverlapFree edits) \<and>
   sorted_wrt (\<lambda>a b. \<not> range_end a > range_start b) (getOverlapFree edits) \<and>
   getOverlapFree edits = greedy_scan (getAllSorted edits)"
  using greedy_scan_start [OF start_sorted_getAllSorted [of edits]]
    greedy_scan_disjoint [OF start_sorted_getAllSorted [of edits]]
  by (simp add: getOverlapFree_greedy)

text \<open>
  The first scenario of the specification: \<open>A = [0,5)\<close>, \<open>B = [3,8)\<close>, \<open>C = [8,10)\<close>, recorded
  in the order \<open>C, B, A\<close>; \<open>B\<close> overlaps \<open>A\<close> and is dropped.
\<close>

theorem getOverlapFree_sound_witness:
  "getOverlapFree scenario_one = [mkFix ''a'' 0 5, mkFix ''c'' 8 10] \<and>
   sorted_wrt (\<lambda>a b. range_start a \<le> range_start b) (getOverlapFree scenario_one) \<and>
   sorted_wrt (\<lambda>a b. \<not> range_end a > range_start b) (getOverlapFree scenario_one)"
  using getOverlapFree_sound [of scenario_one]
  by (simp add: scenario_one_def getAllSorted_def array_sort_def compareFixes_def
      greedy_scan_def mkFix_def)

section \<open>The same-rule and all-rule batches\<close>

lemma mkFix_sel:
  "ruleId (mkFix r s e) = r"
  "fix_range (edit (mkFix r s e)) = (s, e)"
  "documentVersion (mkFix r s e) = 1"
  by (simp_all add: mkFix_def)

lemma show_nat_digit: "n < 10 \<Longrightarrow> show_nat n = [''0123456789'' ! n]"
  by (subst show_nat.simps) simp

lemma getLastEdit_snoc: "getLastEdit (xs @ [x]) = Some x"
  by (simp add: getLastEdit_def)

lemma getLastEdit_Nil: "getLastEdit [] = None"
  by (simp add: getLastEdit_def)

lemma batch_step_apply:
  "batch_step rid (dv, same, all) f =
     (if dv = - 1 then documentVersion f else dv,
      if Some (ruleId f) = rid \<and> \<not> overlaps (getLastEdit same) f then same @ [f] else same,
      if \<not> overlaps (getLastEdit all) f then all @ [f] else all)"
  by (simp add: batch_step_def)

lemma batch_fold:
  "snd (foldl (batch_step rid) (dv, same0, all0) fs) =
     (same0 @ accept_scan (\<lambda>f. Some (ruleId f) = rid) (getLastEdit same0) fs,
      all0 @ accept_scan (\<lambda>f. True) (getLastEdit all0) fs)"
proof (induction fs arbitrary: dv same0 all0)
  case Nil
  then show ?case by simp
next
  case (Cons f fs)
  show ?case
    by (simp add: batch_step_apply Cons.IH getLastEdit_snoc overlaps_def)
qed

lemma accept_scan_filter:
  "accept_scan P l fs = accept_scan (\<lambda>f. True) l (filter P fs)"
  by (induction fs arbitrary: l) auto

lemma accept_scan_keep_after:
  "accept_scan (\<lambda>f. True) (Some l) fs = keep_after l fs"
  by (induction fs arbitrary: l) (auto simp: not_less)

lemma accept_scan_greedy: "accept_scan (\<lambda>f. True) None fs = greedy_scan fs"
  by (cases fs) (simp_all add: greedy_scan_def accept_scan_keep_after)

lemma five_one_overlap:
  "sorted_wrt (\<lambda>a b. range_start a \<le> range_start b) [a, b, c, d, e] \<Longrightarrow>
   overlap_count [a, b, c, d, e] = 1 \<Longrightarrow>
   length (accept_scan (\<lambda>f. True) None [a, b, c, d, e]) = 4"
  by (auto simp: overlaps_def split: if_splits)

lemma scoped_step_apply:
  "scoped_step u doc (dv, rid, cmds, res) f =
     (documentVersion f, Some (ruleId f),
      cmds(applySingleFix \<mapsto>
        \<lparr> change_uri = u, change_version = documentVersion f,
          textEdits = [createTextEdit doc f] \<rparr>),
      res @ [\<lparr> title = label f, command = applySingleFix \<rparr>])"
  by (simp add: scoped_step_def)

lemma scoped_fold:
  "foldl (scoped_step u doc) (dv, rid, cmds, res) scoped = (dv', rid', cmds', res') \<Longrightarrow>
   rid' = (if scoped = [] then rid else Some (ruleId (last scoped))) \<and>
   length res' = length res + length scoped \<and>
   cmds' applySameFixes = cmds applySameFixes \<and>
   cmds' applyAllFixes = cmds applyAllFixes"
proof (induction scoped arbitrary: dv rid cmds res)
  case Nil
  then show ?case by simp
next
  case (Cons f fs)
  from Cons.prems have
    "foldl (scoped_step u doc)
       (documentVersion f, Some (ruleId f),
        cmds(applySingleFix \<mapsto>
          \<lparr> change_uri = u, change_version = documentVersion f,
            textEdits = [createTextEdit doc f] \<rparr>),
        res @ [\<lparr> title = label f, command = applySingleFix \<rparr>]) fs = (dv', rid', cmds', res')"
    by (simp add: scoped_step_apply)
  from Cons.IH [OF this] show ?case
    by (simp add: applySingleFix_def applySameFixes_def applyAllFixes_def)
qed

lemma same_batch_of_five:
  assumes "length (filter P (getAllSorted edits)) = 5"
    and "overlap_count (filter P (getAllSorted edits)) = 1"
  shows "length (accept_scan P None (getAllSorted edits)) = 4"
proof -
  let ?rs = "filter P (getAllSorted edits)"
  have srt: "sorted_wrt (\<lambda>a b. range_start a \<le> range_start b) ?rs"
    using start_sorted_getAllSorted [of edits] by (rule sorted_wrt_filter)
  from assms(1) obtain a b c d e where rs: "?rs = [a, b, c, d, e]"
    by (auto simp: length_Suc_conv eval_nat_numeral)
  show ?thesis
    using five_one_overlap [of a b c d e] srt assms(2)
    by (simp add: accept_scan_filter [of P] rs)
qed

lemma accept_scan_disjoint:
  "sorted_wrt (\<lambda>a b. \<not> overlaps (Some a) b) (accept_scan P None (getAllSorted edits))"
proof -
  have "sorted_wrt (\<lambda>a b. range_start a \<le> range_start b) (filter P (getAllSorted edits))"
    using start_sorted_getAllSorted [of edits] by (rule sorted_wrt_filter)
  from greedy_scan_disjoint [OF this] show ?thesis
    by (simp add: accept_scan_filter [of P] accept_scan_greedy overlaps_def)
qed

text \<open>
  Claim C6. When a code-action request finds the document open and at least one scoped fix,
  the prepared same-rule command holds the text edits of the fixes that an accumulator
  accepts on one pass over \<^verbatim>\<open>getAllSorted()\<close> when it takes a fix iff the fix has the
  triggering rule (the rule of the last scoped fix) and its own last accepted fix does not
  end after the fix starts; the prepared all-rule command holds those of a second
  accumulator that takes any fix under the same test against its own last accepted fix
  (a command is prepared only for more than one fix). When the snapshot holds five fixes of
  the triggering rule and exactly one pair of them fails the overlap test, the same-rule
  batch has exactly four fixes and no fix in it ends after a later one starts.
\<close>

theorem codeAction_batches:
  assumes "codeActions st (textDocument_uri params) = Some edits"
    and "\<not> isEmpty edits"
    and "documents st (textDocument_uri params) = Some textDocument"
    and "getScoped edits (context_diagnostics params) \<noteq> []"
  shows "let r = ruleId (last (getScoped edits (context_diagnostics params)));
             same = accept_scan (\<lambda>f. ruleId f = r) None (getAllSorted edits);
             all = accept_scan (\<lambda>f. True) None (getAllSorted edits);
             commands' = prepared (fst (codeActionHandler params st))
         in map_option textEdits (commands' applySameFixes) =
              (if length same > 1 then Some (map (createTextEdit textDocument) same) else None) \<and>
            map_option textEdits (commands' applyAllFixes) =
              (if length all > 1 then Some (map (createTextEdit textDocument) all) else None) \<and>
            (length (filter (\<lambda>f. ruleId f = r) (getAllSorted edits)) = 5 \<and>
             overlap_count (filter (\<lambda>f. ruleId f = r) (getAllSorted edits)) = 1 \<longrightarrow>
             length same = 4 \<and> sorted_wrt (\<lambda>a b. \<not> overlaps (Some a) b) same)"
proof -
  let ?scoped = "getScoped edits (context_diagnostics params)"
  let ?u = "textDocument_uri params"
  obtain dv1 rid cmds1 res1 where
    sc: "foldl (scoped_step ?u textDocument) (- 1, None, Map.empty, []) ?scoped = (dv1, rid, cmds1, res1)"
    by (metis prod_cases4)
  from scoped_fold [OF sc] assms(4)
  have rid: "rid = Some (ruleId (last ?scoped))" and len: "length res1 > 0"
    and c1: "cmds1 applySameFixes = None" and c2: "cmds1 applyAllFixes = None"
    by auto
  obtain dv2 same all where
    bt: "foldl (batch_step rid) (dv1, [], []) (getAllSorted edits) = (dv2, same, all)"
    by (metis prod_cases3)
  from batch_fold [of rid dv1 "[]" "[]" "getAllSorted edits"] bt
  have same: "same = accept_scan (\<lambda>f. ruleId f = ruleId (last ?scoped)) None (getAllSorted edits)"
    and all: "all = accept_scan (\<lambda>f. True) None (getAllSorted edits)"
    by (simp_all add: getLastEdit_Nil rid)
  have cmd: "prepared (fst (codeActionHandler params st)) =
      (let commands2 =
             (if length same > 1
              then cmds1(applySameFixes \<mapsto>
                \<lparr> change_uri = ?u, change_version = dv2,
                  textEdits = map (createTextEdit textDocument) same \<rparr>)
              else cmds1)
       in (if length all > 1
           then commands2(applyAllFixes \<mapsto>
             \<lparr> change_uri = ?u, change_version = dv2,
               textEdits = map (createTextEdit textDocument) all \<rparr>)
           else commands2))"
    using assms len by (simp add: codeActionHandler_def prepared_def Let_def sc bt)
  have p1: "map_option textEdits (prepared (fst (codeActionHandler params st)) applySameFixes) =
      (if length same > 1 then Some (map (createTextEdit textDocument) same) else None)"
    using c1 by (simp add: cmd Let_def applySameFixes_def applyAllFixes_def)
  have p2: "map_option textEdits (prepared (fst (codeActionHandler params st)) applyAllFixes) =
      (if length all > 1 then Some (map (createTextEdit textDocument) all) else None)"
    using c2 by (simp add: cmd Let_def applySameFixes_def applyAllFixes_def)
  show ?thesis
    unfolding Let_def
    using p1 p2 same_batch_of_five [of "\<lambda>f. ruleId f = ruleId (last ?scoped)" edits]
      accept_scan_disjoint [of "\<lambda>f. ruleId f = ruleId (last ?scoped)" edits]
    by (simp add: same all)
qed

text \<open>The fourth scenario: the fix at \<open>[12,16)\<close> is left out of both batches.\<close>

lemma scenario_four_scoped: "getScoped scenario_four (context_diagnostics scenario_four_params) =
      [mkFix ''semi'' 0 2]"
    by (simp add: scenario_four_params_def scenario_four_def computeKey_def show_int_def
        show_nat_digit show_diagnostic_code_def)

lemma scenario_four_sorted: "getAllSorted scenario_four =
      [mkFix ''semi'' 0 2, mkFix ''quotes'' 1 3, mkFix ''semi'' 5 7, mkFix ''semi'' 10 14,
       mkFix ''semi'' 12 16, mkFix ''semi'' 20 22]"
    by (simp add: scenario_four_def getAllSorted_def array_sort_def compareFixes_def mkFix_def)

theorem codeAction_batches_witness:
  "getScoped scenario_four (context_diagnostics scenario_four_params) = [mkFix ''semi'' 0 2] \<and>
   length (filter (\<lambda>f. ruleId f = ''semi'') (getAllSorted scenario_four)) = 5 \<and>
   overlap_count (filter (\<lambda>f. ruleId f = ''semi'') (getAllSorted scenario_four)) = 1 \<and>
   map_option textEdits
     (prepared (fst (codeActionHandler scenario_four_params scenario_four_state)) applySameFixes) =
     Some (map (createTextEdit scenario_four_document)
       [mkFix ''semi'' 0 2, mkFix ''semi'' 5 7, mkFix ''semi'' 10 14, mkFix ''semi'' 20 22]) \<and>
   map_option textEdits
     (prepared (fst (codeActionHandler scenario_four_params scenario_four_state)) applyAllFixes) =
     Some (map (createTextEdit scenario_four_document)
       [mkFix ''semi'' 0 2, mkFix ''semi'' 5 7, mkFix ''semi'' 10 14, mkFix ''semi'' 20 22])"
proof -
  have h1: "codeActions scenario_four_state (textDocument_uri scenario_four_params) =
      Some scenario_four"
    by (simp add: scenario_four_state_def scenario_four_params_def)
  have h2: "\<not> isEmpty scenario_four"
    by (simp add: isEmpty_def scenario_four_def)
  have h3: "documents scenario_four_state (textDocument_uri scenario_four_params) =
      Some scenario_four_document"
    by (simp add: scenario_four_state_def scenario_four_params_def)
  have h4: "getScoped scenario_four (context_diagnostics scenario_four_params) \<noteq> []"
    by (simp add: scenario_four_scoped)
  show ?thesis
    using codeAction_batches [OF h1 h2 h3 h4]
    by (simp add: scenario_four_scoped scenario_four_sorted Let_def mkFix_sel overlaps_def)
qed

section \<open>Applying all fixes\<close>

lemma scenario_one_overlapFree:
  "getOverlapFree scenario_one = [mkFix ''a'' 0 5, mkFix ''c'' 8 10]"
  by (simp add: getOverlapFree_def scenario_one_def getAllSorted_def array_sort_def
      compareFixes_def overlaps_def mkFix_sel)

text \<open>
  Claim C8. For an \<^verbatim>\<open>applyAutoFix\<close> request, when the document of the identifier is not
  open, or is open at a version other than the identifier's, \<^verbatim>\<open>computeAllFixes\<close> computes
  no edits and the handler answers the empty result without asking the client to apply
  anything; when the document is open at the identifier's version and fixes are recorded,
  the handler asks the client to apply the text edits of \<^verbatim>\<open>getOverlapFree()\<close>, computed
  from the store and the document as they are at that moment.
\<close>

theorem applyAutoFix_fails_closed:
  assumes "command_id params = applyAutoFix"
    and "arguments params = identifier # others"
  shows "(documents st (id_uri identifier) = None \<or>
          (\<exists>textDocument. documents st (id_uri identifier) = Some textDocument \<and>
             version textDocument \<noteq> id_version identifier) \<longrightarrow>
          computeAllFixes identifier st = None \<and>
          executeCommandHandler params st = Returned EmptyResult) \<and>
         (documents st (id_uri identifier) = Some current \<and>
          version current = id_version identifier \<and>
          codeActions st (id_uri identifier) = Some edits \<and> \<not> isEmpty edits \<longrightarrow>
          executeCommandHandler params st =
            Returned (ApplyEdit
              \<lparr> change_uri = id_uri identifier, change_version = id_version identifier,
                textEdits = map (createTextEdit current) (getOverlapFree edits) \<rparr>))"
  using assms
  by (auto simp: executeCommandHandler_def computeAllFixes_def Let_def)

text \<open>
  The document is at version 2: a request for version 1 gets the empty result, a request
  for version 2 gets the edits of the fixes at \<open>[0,5)\<close> and \<open>[8,10)\<close>.
\<close>

theorem applyAutoFix_fails_closed_witness:
  "executeCommandHandler (scenario_apply 1) scenario_apply_state = Returned EmptyResult \<and>
   executeCommandHandler (scenario_apply 2) scenario_apply_state =
     Returned (ApplyEdit
       \<lparr> change_uri = ''file:///a.js'', change_version = 2,
         textEdits = map (createTextEdit (scenario_four_document\<lparr>version := 2\<rparr>))
           [mkFix ''a'' 0 5, mkFix ''c'' 8 10] \<rparr>)"
  using applyAutoFix_fails_closed
      [of "scenario_apply 1" "\<lparr> id_uri = ''file:///a.js'', id_version = 1 \<rparr>" "[]"
        scenario_apply_state]
    applyAutoFix_fails_closed
      [of "scenario_apply 2" "\<lparr> id_uri = ''file:///a.js'', id_version = 2 \<rparr>" "[]"
        scenario_apply_state "scenario_four_document\<lparr>version := 2\<rparr>" scenario_one]
  by (simp add: scenario_apply_def scenario_apply_state_def scenario_one_overlapFree isEmpty_def)
    (simp add: scenario_one_def)

section \<open>What a validation pass records\<close>

lemma validate_step_None: "validate_step document settings (s, ds) None = (s, ds)"
  by (simp add: validate_step_def)

lemma validate_step_map:
  assumes "autoFix settings"
    and "validate_step document settings (s, ds) (Some p) = (s', ds')"
  shows "map_of (recorded s' (uri document)) =
     (if fixable p
      then (map_of (recorded s (uri document)))
        (computeKey (makeDiagnostic p) \<mapsto>
           \<lparr> label = ''Fix this '' @ show_code (problem_ruleId p) @ '' problem'',
             documentVersion = version document,
             ruleId = show_code (problem_ruleId p),
             edit = the (problem_fix p) \<rparr>)
      else map_of (recorded s (uri document)))"
  using assms
  by (auto simp: validate_step_def recordCodeAction_def fixable_def recorded_def Let_def
      show_code_def AList.update_conv' split: option.splits if_splits)

lemma fold_provenance:
  assumes "autoFix settings"
  shows "foldl (validate_step document settings) (s, ds) ps = (s', ds') \<Longrightarrow>
     map_of (recorded s' (uri document)) k = Some e \<Longrightarrow>
     map_of (recorded s (uri document)) k = Some e \<or>
     (documentVersion e = version document \<and>
      (\<exists>p. Some p \<in> set ps \<and> fixable p \<and> k = computeKey (makeDiagnostic p) \<and>
         ruleId e = show_code (problem_ruleId p) \<and> Some (edit e) = problem_fix p))"
proof (induction ps arbitrary: s ds)
  case Nil
  then show ?case by simp
next
  case (Cons a ps)
  show ?case
  proof (cases a)
    case None
    with Cons.prems have "foldl (validate_step document settings) (s, ds) ps = (s', ds')"
      by (simp add: validate_step_None)
    from Cons.IH [OF this Cons.prems(2)] show ?thesis by auto
  next
    case (Some p)
    obtain s1 ds1 where st: "validate_step document settings (s, ds) (Some p) = (s1, ds1)"
      by (cases "validate_step document settings (s, ds) (Some p)")
    with Cons.prems Some have "foldl (validate_step document settings) (s1, ds1) ps = (s', ds')"
      by simp
    from Cons.IH [OF this Cons.prems(2)]
    consider "map_of (recorded s1 (uri document)) k = Some e"
      | "documentVersion e = version document \<and>
         (\<exists>p. Some p \<in> set ps \<and> fixable p \<and> k = computeKey (makeDiagnostic p) \<and>
            ruleId e = show_code (problem_ruleId p) \<and> Some (edit e) = problem_fix p)"
      by blast
    then show ?thesis
    proof cases
      case 1
      show ?thesis
      proof (cases "fixable p \<and> k = computeKey (makeDiagnostic p)")
        case True
        with 1 validate_step_map [OF assms st]
        have "e = \<lparr> label = ''Fix this '' @ show_code (problem_ruleId p) @ '' problem'',
             documentVersion = version document,
             ruleId = show_code (problem_ruleId p),
             edit = the (problem_fix p) \<rparr>"
          by simp
        with True Some show ?thesis by (auto simp: fixable_def)
      next
        case False
        with 1 validate_step_map [OF assms st]
        have "map_of (recorded s (uri document)) k = Some e"
          by (auto split: if_splits)
        then show ?thesis by simp
      qed
    next
      case 2
      then show ?thesis by auto
    qed
  qed
qed

lemma fold_persistence:
  assumes "autoFix settings"
  shows "foldl (validate_step document settings) (s, ds) ps = (s', ds') \<Longrightarrow>
     map_of (recorded s (uri document)) k = Some e \<Longrightarrow>
     documentVersion e = version document \<Longrightarrow>
     \<exists>e'. map_of (recorded s' (uri document)) k = Some e' \<and>
       documentVersion e' = version document"
proof (induction ps arbitrary: s ds e)
  case Nil
  then show ?case by simp
next
  case (Cons a ps)
  show ?case
  proof (cases a)
    case None
    with Cons.prems have "foldl (validate_step document settings) (s, ds) ps = (s', ds')"
      by (simp add: validate_step_None)
    from Cons.IH [OF this Cons.prems(2,3)] show ?thesis .
  next
    case (Some p)
    obtain s1 ds1 where st: "validate_step document settings (s, ds) (Some p) = (s1, ds1)"
      by (cases "validate_step document settings (s, ds) (Some p)")
    with Cons.prems Some have fl: "foldl (validate_step document settings) (s1, ds1) ps = (s', ds')"
      by simp
    from validate_step_map [OF assms st] Cons.prems(2,3)
    obtain e1 where "map_of (recorded s1 (uri document)) k = Some e1"
      and "documentVersion e1 = version document"
      by (cases "fixable p \<and> k = computeKey (makeDiagnostic p)") (auto split: if_splits)
    from Cons.IH [OF fl this] show ?thesis .
  qed
qed

lemma fold_presence:
  assumes "autoFix settings"
  shows "foldl (validate_step document settings) (s, ds) ps = (s', ds') \<Longrightarrow>
     Some p \<in> set ps \<Longrightarrow> fixable p \<Longrightarrow>
     \<exists>e. map_of (recorded s' (uri document)) (computeKey (makeDiagnostic p)) = Some e \<and>
       documentVersion e = version document"
proof (induction ps arbitrary: s ds)
  case Nil
  then show ?case by simp
next
  case (Cons a ps)
  show ?case
  proof (cases "a = Some p")
    case True
    obtain s1 ds1 where st: "validate_step document settings (s, ds) (Some p) = (s1, ds1)"
      by (cases "validate_step document settings (s, ds) (Some p)")
    with Cons.prems True have fl: "foldl (validate_step document settings) (s1, ds1) ps = (s', ds')"
      by simp
    from validate_step_map [OF assms st] Cons.prems(3)
    have "map_of (recorded s1 (uri document)) (computeKey (makeDiagnostic p)) =
        Some \<lparr> label = ''Fix this '' @ show_code (problem_ruleId p) @ '' problem'',
             documentVersion = version document,
             ruleId = show_code (problem_ruleId p),
             edit = the (problem_fix p) \<rparr>"
      by simp
    from fold_persistence [OF assms fl this] show ?thesis by simp
  next
    case False
    obtain s1 ds1 where st: "validate_step document settings (s, ds) a = (s1, ds1)"
      by (cases "validate_step document settings (s, ds) a")
    with Cons.prems have fl: "foldl (validate_step document settings) (s1, ds1) ps = (s', ds')"
      by simp
    from False Cons.prems(2) have "Some p \<in> set ps" by simp
    from Cons.IH [OF fl this Cons.prems(3)] show ?thesis .
  qed
qed

lemma fold_autoFix_off:
  "\<not> autoFix settings \<Longrightarrow> fst (foldl (validate_step document settings) (s, ds) ps) = s"
proof (induction ps arbitrary: ds)
  case Nil
  then show ?case by simp
next
  case (Cons a ps)
  then show ?case
    by (cases a) (simp_all add: validate_step_def Let_def)
qed

lemma validate_report:
  assumes "executeOnText settings (getText document) = Report report"
  shows "\<exists>ds. foldl (validate_step document settings)
            ((codeActions st)(uri document := None), []) (reported_problems report) =
          (codeActions (fst (validate document settings publish st)), ds)"
  using assms by (simp add: validate_def Let_def split: prod.splits)

text \<open>
  Claim C9, as amended. In every validation pass that gets its lint engine constructed,
  the document's previous fixes are discarded before the lint run and never merged: when
  \<^verbatim>\<open>executeOnText\<close> throws, the store has no entry for the document any more; when it
  returns, every entry that the store then holds for the document was recorded in this
  pass, with the auto-fix setting on, from a finding of the report's first result that
  carries a fix and a rule id that is not empty, under the computed key of that finding's
  diagnostic, with its rule and edit and stamped with the document's version, whatever the
  store held before; with the auto-fix setting off the store has no entry for the
  document. And when the setting is on, the store holds such an entry, stamped with the
  document's version, for every finding of the report's first result that carries a fix
  and a rule id that is not empty.
\<close>

theorem validate_records:
  "(executeOnText settings (getText document) = ExecuteThrows \<longrightarrow>
      codeActions (fst (validate document settings publish st)) (uri document) = None) \<and>
   (executeOnText settings (getText document) = Report report \<longrightarrow>
      (let recorded' =
             recorded (codeActions (fst (validate document settings publish st))) (uri document)
       in (\<forall>key entry. map_of recorded' key = Some entry \<longrightarrow>
             autoFix settings \<and>
             documentVersion entry = version document \<and>
             (\<exists>problem. Some problem \<in> set (reported_problems report) \<and> fixable problem \<and>
                key = computeKey (makeDiagnostic problem) \<and>
                problem_ruleId problem = Some (ruleId entry) \<and>
                Some (edit entry) = problem_fix problem)) \<and>
          (\<not> autoFix settings \<longrightarrow>
             codeActions (fst (validate document settings publish st)) (uri document) = None) \<and>
          (autoFix settings \<longrightarrow>
             (\<forall>problem. Some problem \<in> set (reported_problems report) \<and> fixable problem \<longrightarrow>
                (\<exists>entry. map_of recorded' (computeKey (makeDiagnostic problem)) = Some entry \<and>
                   documentVersion entry = version document)))))"
proof (intro conjI impI)
  assume "executeOnText settings (getText document) = ExecuteThrows"
  then show "codeActions (fst (validate document settings publish st)) (uri document) = None"
    by (simp add: validate_def)
next
  let ?after = "codeActions (fst (validate document settings publish st))"
  let ?cleaned = "(codeActions st)(uri document := None)"
  assume "executeOnText settings (getText document) = Report report"
  from validate_report [OF this, of st publish]
  obtain ds where
    fl: "foldl (validate_step document settings) (?cleaned, []) (reported_problems report) =
          (?after, ds)"
    by blast
  have empty: "map_of (recorded ?cleaned (uri document)) = Map.empty"
    by (simp add: recorded_def)
  have off: "\<not> autoFix settings \<Longrightarrow> ?after = ?cleaned"
    using fold_autoFix_off [of settings document ?cleaned "[]" "reported_problems report"] fl
    by simp
  have prov: "autoFix settings \<and> documentVersion entry = version document \<and>
      (\<exists>problem. Some problem \<in> set (reported_problems report) \<and> fixable problem \<and>
         key = computeKey (makeDiagnostic problem) \<and>
         problem_ruleId problem = Some (ruleId entry) \<and>
         Some (edit entry) = problem_fix problem)"
    if m: "map_of (recorded ?after (uri document)) key = Some entry" for key entry
  proof (cases "autoFix settings")
    case True
    from fold_provenance [OF True fl m] empty True show ?thesis
      by (auto simp: fixable_def show_code_def)
  next
    case False
    with off m empty show ?thesis by simp
  qed
  have pres: "\<exists>entry. map_of (recorded ?after (uri document))
        (computeKey (makeDiagnostic problem)) = Some entry \<and>
      documentVersion entry = version document"
    if "autoFix settings" and "Some problem \<in> set (reported_problems report) \<and> fixable problem"
    for problem
    using fold_presence [OF that(1) fl, of problem] that(2) by simp
  show "let recorded' = recorded ?after (uri document)
       in (\<forall>key entry. map_of recorded' key = Some entry \<longrightarrow>
             autoFix settings \<and>
             documentVersion entry = version document \<and>
             (\<exists>problem. Some problem \<in> set (reported_problems report) \<and> fixable problem \<and>
                key = computeKey (makeDiagnostic problem) \<and>
                problem_ruleId problem = Some (ruleId entry) \<and>
                Some (edit entry) = problem_fix problem)) \<and>
          (\<not> autoFix settings \<longrightarrow> ?after (uri document) = None) \<and>
          (autoFix settings \<longrightarrow>
             (\<forall>problem. Some problem \<in> set (reported_problems report) \<and> fixable problem \<longrightarrow>
                (\<exists>entry. map_of recorded' (computeKey (makeDiagnostic problem)) = Some entry \<and>
                   documentVersion entry = version document)))"
    unfolding Let_def
  proof (intro conjI allI impI)
    fix key entry
    assume m: "map_of (recorded ?after (uri document)) key = Some entry"
    from prov [OF m] show "autoFix settings" by simp
    from prov [OF m] show "documentVersion entry = version document" by simp
    from prov [OF m]
    show "\<exists>problem. Some problem \<in> set (reported_problems report) \<and> fixable problem \<and>
         key = computeKey (makeDiagnostic problem) \<and>
         problem_ruleId problem = Some (ruleId entry) \<and>
         Some (edit entry) = problem_fix problem"
      by simp
  next
    assume "\<not> autoFix settings"
    from off [OF this] show "?after (uri document) = None" by simp
  next
    fix problem
    assume "autoFix settings"
      and "Some problem \<in> set (reported_problems report) \<and> fixable problem"
    then show "\<exists>entry. map_of (recorded ?after (uri document))
        (computeKey (makeDiagnostic problem)) = Some entry \<and>
      documentVersion entry = version document"
      by (rule pres)
  qed
qed

lemma scenario_pass_on:
  "codeActions (fst (validate scenario_pass_document (scenario_settings True) True
       scenario_pass_state)) (uri scenario_pass_document) =
     Some [(''[0,9,0,9]-semi'',
            \<lparr> label = ''Fix this semi problem'', documentVersion = 7, ruleId = ''semi'',
              edit = \<lparr> fix_range = (9, 9), fix_text = '';'' \<rparr> \<rparr>)]"
  by (simp add: validate_def scenario_pass_document_def scenario_settings_def
      scenario_pass_state_def scenario_report_def reported_problems_def validate_step_def
      recordCodeAction_def scenario_finding_def scenario_finding_norule_def makeDiagnostic_def
      computeKey_def show_int_def show_nat_digit show_diagnostic_code_def Let_def)

lemma scenario_pass_off:
  "codeActions (fst (validate scenario_pass_document (scenario_settings False) True
       scenario_pass_state)) (uri scenario_pass_document) = None"
  by (simp add: validate_def scenario_pass_document_def scenario_settings_def
      scenario_pass_state_def scenario_report_def reported_problems_def validate_step_def
      Let_def)

text \<open>
  The pass of the scenario with \<^verbatim>\<open>executeOnText\<close> throwing, with the auto-fix setting on,
  and with the setting off. The store held the three fixes of the first scenario before;
  after the pass with the setting on it holds the one fix of this pass.
\<close>

theorem validate_records_witness:
  "codeActions (fst (validate scenario_pass_document scenario_settings_throwing True
       scenario_pass_state)) (uri scenario_pass_document) = None \<and>
   codeActions (fst (validate scenario_pass_document (scenario_settings False) True
       scenario_pass_state)) (uri scenario_pass_document) = None \<and>
   fixable scenario_finding \<and>
   (\<exists>entry. map_of (recorded (codeActions (fst (validate scenario_pass_document
        (scenario_settings True) True scenario_pass_state))) (uri scenario_pass_document))
        (computeKey (makeDiagnostic scenario_finding)) = Some entry \<and>
      documentVersion entry = version scenario_pass_document) \<and>
   map_of (recorded (codeActions (fst (validate scenario_pass_document
        (scenario_settings True) True scenario_pass_state))) (uri scenario_pass_document))
        ''[0,9,0,9]-semi'' =
      Some \<lparr> label = ''Fix this semi problem'', documentVersion = 7, ruleId = ''semi'',
             edit = \<lparr> fix_range = (9, 9), fix_text = '';'' \<rparr> \<rparr> \<and>
   (\<exists>problem. Some problem \<in> set (reported_problems (Some scenario_report)) \<and>
      fixable problem \<and> ''[0,9,0,9]-semi'' = computeKey (makeDiagnostic problem) \<and>
      problem_ruleId problem = Some ''semi'')"
proof -
  have c1: "codeActions (fst (validate scenario_pass_document scenario_settings_throwing True
       scenario_pass_state)) (uri scenario_pass_document) = None"
    using validate_records [where settings = scenario_settings_throwing
        and document = scenario_pass_document and publish = True and st = scenario_pass_state]
    by (simp add: scenario_settings_throwing_def)
  have c0: "codeActions (fst (validate scenario_pass_document (scenario_settings False) True
       scenario_pass_state)) (uri scenario_pass_document) = None"
    using validate_records [where settings = "scenario_settings False"
        and document = scenario_pass_document and report = "Some scenario_report"
        and publish = True and st = scenario_pass_state]
    by (simp add: scenario_settings_def Let_def)
  have h: "executeOnText (scenario_settings True) (getText scenario_pass_document) =
        Report (Some scenario_report)"
    and af: "autoFix (scenario_settings True)"
    by (simp_all add: scenario_settings_def)
  have f: "fixable scenario_finding"
    by (simp add: fixable_def scenario_finding_def)
  have mem: "Some scenario_finding \<in> set (reported_problems (Some scenario_report))"
    by (simp add: reported_problems_def scenario_report_def)
  note all = validate_records [where settings = "scenario_settings True"
      and document = scenario_pass_document and report = "Some scenario_report"
      and publish = True and st = scenario_pass_state, unfolded Let_def,
      THEN conjunct2, THEN mp, OF h]
  from all af f mem
  have c2: "\<exists>entry. map_of (recorded (codeActions (fst (validate scenario_pass_document
        (scenario_settings True) True scenario_pass_state))) (uri scenario_pass_document))
        (computeKey (makeDiagnostic scenario_finding)) = Some entry \<and>
      documentVersion entry = version scenario_pass_document"
    by blast
  have l: "map_of (recorded (codeActions (fst (validate scenario_pass_document
        (scenario_settings True) True scenario_pass_state))) (uri scenario_pass_document))
        ''[0,9,0,9]-semi'' =
      Some \<lparr> label = ''Fix this semi problem'', documentVersion = 7, ruleId = ''semi'',
             edit = \<lparr> fix_range = (9, 9), fix_text = '';'' \<rparr> \<rparr>"
    by (simp add: scenario_pass_on recorded_def)
  from all l
  have c3: "\<exists>problem. Some problem \<in> set (reported_problems (Some scenario_report)) \<and>
      fixable problem \<and> ''[0,9,0,9]-semi'' = computeKey (makeDiagnostic problem) \<and>
      problem_ruleId problem = Some ''semi''"
    by fastforce
  from c1 c0 f c2 l c3 show ?thesis by blast
qed

text \<open>
  Claim C9 as stated fails. The finding of the rule \<open>semi\<close> carries a fix, and with the
  auto-fix setting off the pass leaves no entry for the document. The finding without a
  rule carries a fix, and with the setting on the pass records no entry under its key. And
  when the constructor of the engine throws, the pass leaves the previous fixes of the
  document in the store.
\<close>

theorem validate_records_counterexample:
  "problem_fix scenario_finding \<noteq> None \<and>
   codeActions (fst (validate scenario_pass_document (scenario_settings False) True
       scenario_pass_state)) (uri scenario_pass_document) = None \<and>
   problem_fix scenario_finding_norule \<noteq> None \<and>
   map_of (recorded (codeActions (fst (validate scenario_pass_document (scenario_settings True)
       True scenario_pass_state))) (uri scenario_pass_document))
     (computeKey (makeDiagnostic scenario_finding_norule)) = None \<and>
   codeActions scenario_pass_state (uri scenario_pass_document) = Some scenario_one \<and>
   codeActions (fst (validate scenario_pass_document scenario_settings_no_engine True
       scenario_pass_state)) (uri scenario_pass_document) = Some scenario_one"
proof -
  have "codeActions (fst (validate scenario_pass_document scenario_settings_no_engine True
       scenario_pass_state)) (uri scenario_pass_document) = Some scenario_one"
    and "codeActions scenario_pass_state (uri scenario_pass_document) = Some scenario_one"
    by (simp_all add: validate_def scenario_settings_no_engine_def scenario_pass_state_def
        scenario_pass_document_def)
  moreover have "map_of (recorded (codeActions (fst (validate scenario_pass_document
       (scenario_settings True) True scenario_pass_state))) (uri scenario_pass_document))
     (computeKey (makeDiagnostic scenario_finding_norule)) = None"
    by (simp add: scenario_pass_on recorded_def)
      (simp add: scenario_finding_norule_def makeDiagnostic_def computeKey_def show_int_def
        show_nat_digit show_diagnostic_code_def Let_def)
  moreover have "problem_fix scenario_finding \<noteq> None"
    and "problem_fix scenario_finding_norule \<noteq> None"
    by (simp_all add: scenario_finding_def scenario_finding_norule_def)
  ultimately show ?thesis
    using scenario_pass_off by simp
qed

section \<open>Dispatch of one message\<close>

lemma handled_append: "handled (xs @ ys) = handled xs @ handled ys"
  by (induction xs rule: handled.induct) simp_all

lemma pushed_append: "pushed (xs @ ys) = pushed xs @ pushed ys"
  by (induction xs rule: pushed.induct) simp_all

lemma shifted_append: "shifted (xs @ ys) = shifted xs @ shifted ys"
  by (induction xs rule: shifted.induct) simp_all

lemma trigger_fields:
  "queue (trigger s) = queue s" "trace (trigger s) = trace s" "world (trigger s) = world s"
  "cancelled (trigger s) = cancelled s"
  "requestHandlers (trigger s) = requestHandlers s"
  "notificationHandlers (trigger s) = notificationHandlers s"
  "timer (trigger s) = (timer s \<or> queue s \<noteq> [])"
  by (auto simp: trigger_def)

lemma emit_fields:
  "queue (emit e s) = queue s" "trace (emit e s) = trace s @ [e]" "world (emit e s) = world s"
  "cancelled (emit e s) = cancelled s" "timer (emit e s) = timer s"
  "requestHandlers (emit e s) = requestHandlers s"
  "notificationHandlers (emit e s) = notificationHandlers s"
  by (simp_all add: emit_def)

lemma push_fields:
  "queue (push m s) = queue s @ [m]" "trace (push m s) = trace s @ [Pushed m]"
  "world (push m s) = world s" "cancelled (push m s) = cancelled s" "timer (push m s) = timer s"
  "requestHandlers (push m s) = requestHandlers s"
  "notificationHandlers (push m s) = notificationHandlers s"
  by (simp_all add: push_def)

lemmas queue_fields = trigger_fields emit_fields push_fields

lemma added_events:
  "handled (map (\<lambda>(m, p, v). Pushed (Notification m p (Some v))) added) = []"
  "shifted (map (\<lambda>(m, p, v). Pushed (Notification m p (Some v))) added) = []"
  "pushed (map (\<lambda>(m, p, v). Pushed (Notification m p (Some v))) added) =
     map (\<lambda>(m, p, v). Notification m p (Some v)) added"
  by (induction added) auto

lemma added_fields:
  "world (foldl (\<lambda>s' (m, p, v). addNotificationMessage m p v s') s added) = world s"
  "handled (trace (foldl (\<lambda>s' (m, p, v). addNotificationMessage m p v s') s added)) =
     handled (trace s)"
  "shifted (trace (foldl (\<lambda>s' (m, p, v). addNotificationMessage m p v s') s added)) =
     shifted (trace s)"
  "queue (foldl (\<lambda>s' (m, p, v). addNotificationMessage m p v s') s added) =
     queue s @ map (\<lambda>(m, p, v). Notification m p (Some v)) added"
  "pushed (trace (foldl (\<lambda>s' (m, p, v). addNotificationMessage m p v s') s added)) =
     pushed (trace s) @ map (\<lambda>(m, p, v). Notification m p (Some v)) added"
  "trace (foldl (\<lambda>s' (m, p, v). addNotificationMessage m p v s') s added) =
     trace s @ map (\<lambda>(m, p, v). Pushed (Notification m p (Some v))) added"
  by (induction added arbitrary: s)
    (auto simp: addNotificationMessage_def queue_fields handled_append shifted_append
      pushed_append)


lemmas scenario_eval =
  run_def onRequest_def onNotification_def addNotificationMessage_def push_def trigger_def
  tick_def processQueue_def stale_def emit_def scenario_queue_def Let_def

text \<open>
  Claim C4. When the message at the head of the queue is a request whose cancellation token
  is signaled, \<^verbatim>\<open>processQueue\<close> shifts it and rejects the caller's promise with
  \<^verbatim>\<open>RequestCancelled\<close>, and that is all: no handler is called and the state around the
  queue stays as it is, whatever is registered for the method.
\<close>

theorem cancelled_request_rejected:
  assumes "queue s = Request method params documentVersion' resolve_reject token # rest"
    and "cancelled s token"
  shows "trace (processQueue s) =
           trace s @ [Shifted (Request method params documentVersion' resolve_reject token),
                      Rejected resolve_reject RequestCancelled] \<and>
         handled (trace (processQueue s)) = handled (trace s) \<and>
         world (processQueue s) = world s \<and>
         queue (processQueue s) = rest"
  using assms by (simp add: processQueue_def Let_def queue_fields handled_append)

text \<open>The request of the scenario is cancelled between its arrival and its dispatch.\<close>

theorem cancelled_request_rejected_witness:
  "queue scenario_cancelled =
     [Request ''textDocument/codeAction'' ''file:///a.js'' (Some 1) 1 1] \<and>
   cancelled scenario_cancelled 1 \<and>
   handled (trace (processQueue scenario_cancelled)) = [] \<and>
   trace (processQueue scenario_cancelled) =
     trace scenario_cancelled @
       [Shifted (Request ''textDocument/codeAction'' ''file:///a.js'' (Some 1) 1 1),
        Rejected 1 RequestCancelled]"
proof -
  have q: "queue scenario_cancelled =
      Request ''textDocument/codeAction'' ''file:///a.js'' (Some 1) 1 1 # []"
    by (simp add: scenario_cancelled_def scenario_eval)
  have c: "cancelled scenario_cancelled 1"
    by (simp add: scenario_cancelled_def scenario_eval)
  have t: "handled (trace scenario_cancelled) = []"
    by (simp add: scenario_cancelled_def scenario_eval)
  from cancelled_request_rejected [OF q c] q c t show ?thesis by (simp add: handled_append)
qed

text \<open>
  Claim C2, as amended. For a request at the head of the queue whose method is registered
  with a version provider and whose enqueue-time snapshot is defined: when the provider's
  live value differs from the snapshot, the request is rejected with \<^verbatim>\<open>RequestCancelled\<close>
  and no handler is called; when it equals the snapshot and the cancellation token is not
  signaled, the handler is called exactly once, and the caller's promise is resolved with
  the handler's value or left to the handler's promise.
\<close>

theorem versioned_request_dispatch:
  assumes "queue s = Request method params (Some v) resolve_reject token # rest"
    and "requestHandlers s method = Some elem"
    and "request_versionProvider elem = Some versionProvider"
  shows "(versionProvider params (world s) \<noteq> Some v \<longrightarrow>
            trace (processQueue s) =
              trace s @ [Shifted (Request method params (Some v) resolve_reject token),
                         Rejected resolve_reject RequestCancelled] \<and>
            handled (trace (processQueue s)) = handled (trace s) \<and>
            world (processQueue s) = world s) \<and>
         (versionProvider params (world s) = Some v \<and> \<not> cancelled s token \<longrightarrow>
            trace (processQueue s) =
              trace s @ [Shifted (Request method params (Some v) resolve_reject token),
                         RequestHandlerCalled method params,
                         (case snd (request_handler elem params (world s)) of
                            Thenable \<Rightarrow> Awaited resolve_reject
                          | Value value' \<Rightarrow> Resolved resolve_reject value')] \<and>
            handled (trace (processQueue s)) = handled (trace s) @ [(method, params)] \<and>
            world (processQueue s) = fst (request_handler elem params (world s)))"
  using assms
  by (auto simp: processQueue_def Let_def queue_fields handled_append stale_def
      split: prod.splits HandlerResult.splits)

text \<open>
  The document changes to version 2 before the dispatch of a request stamped with version
  1, and the request is rejected; without a change the handler runs once.
\<close>

theorem versioned_request_dispatch_witness:
  "trace (processQueue scenario_superseded) =
     trace scenario_superseded @
       [Shifted (Request ''textDocument/codeAction'' ''file:///a.js'' (Some 1) 1 1),
        Rejected 1 RequestCancelled] \<and>
   handled (trace (processQueue scenario_superseded)) = [] \<and>
   trace (processQueue scenario_current) =
     trace scenario_current @
       [Shifted (Request ''textDocument/codeAction'' ''file:///a.js'' (Some 1) 1 1),
        RequestHandlerCalled ''textDocument/codeAction'' ''file:///a.js'',
        Resolved 1 ''[]''] \<and>
   handled (trace (processQueue scenario_current)) =
     [(''textDocument/codeAction'', ''file:///a.js'')]"
proof -
  let ?elem = "\<lparr> request_handler = (\<lambda>params w. (w, Value ''[]'')),
      request_versionProvider = Some (\<lambda>params (w :: string \<rightharpoonup> int). w params) \<rparr>"
  have q1: "queue scenario_superseded =
      Request ''textDocument/codeAction'' ''file:///a.js'' (Some 1) 1 1 # []"
    and r1: "requestHandlers scenario_superseded ''textDocument/codeAction'' = Some ?elem"
    and w1: "world scenario_superseded ''file:///a.js'' = Some 2"
    and t1: "handled (trace scenario_superseded) = []"
    by (simp_all add: scenario_superseded_def scenario_eval)
  have q2: "queue scenario_current =
      Request ''textDocument/codeAction'' ''file:///a.js'' (Some 1) 1 1 # []"
    and r2: "requestHandlers scenario_current ''textDocument/codeAction'' = Some ?elem"
    and w2: "world scenario_current ''file:///a.js'' = Some 1"
    and c2: "\<not> cancelled scenario_current 1"
    and t2: "handled (trace scenario_current) = []"
    by (simp_all add: scenario_current_def scenario_eval)
  have v: "request_versionProvider ?elem = Some (\<lambda>params w. w params)"
    by simp
  from versioned_request_dispatch [OF q1 r1 v] versioned_request_dispatch [OF q2 r2 v]
    w1 t1 w2 c2 t2
  show ?thesis by (simp add: handled_append)
qed

text \<open>
  Claim C2 as stated fails twice. A request that arrived while its document was not open
  is stamped \<^verbatim>\<open>undefined\<close>; at dispatch the provider's live value is 3, which differs, and
  the handler is called all the same. A request that is stamped 1 while the live value is
  still 1, and whose token is signaled, is dispatched without any handler call.
\<close>

theorem versioned_request_counterexample:
  "queue scenario_unstamped =
     [Request ''textDocument/codeAction'' ''file:///a.js'' None 1 1] \<and>
   world scenario_unstamped ''file:///a.js'' = Some 3 \<and>
   handled (trace (processQueue scenario_unstamped)) =
     [(''textDocument/codeAction'', ''file:///a.js'')] \<and>
   queue scenario_cancelled =
     [Request ''textDocument/codeAction'' ''file:///a.js'' (Some 1) 1 1] \<and>
   world scenario_cancelled ''file:///a.js'' = Some 1 \<and>
   handled (trace (processQueue scenario_cancelled)) = []"
  by (simp add: scenario_unstamped_def scenario_cancelled_def scenario_eval)

text \<open>
  Claim C10, as amended. For a message whose recorded \<^verbatim>\<open>documentVersion\<close> is
  \<^verbatim>\<open>undefined\<close> the staleness test is false whatever version provider is registered for
  the method and whatever the provider's live value is. So a notification's handler is
  called and nothing is dropped; and a request whose cancellation token is not signaled at
  dispatch time has its handler called and is not rejected.
\<close>

theorem unstamped_message_dispatched:
  "stale versionProvider' None params (world s) = False \<and>
   (queue s = Notification method params None # rest \<and>
    notificationHandlers s method = Some elem \<longrightarrow>
      trace (processQueue s) =
        trace s @ [Shifted (Notification method params None),
                   NotificationHandlerCalled method params] @
          map (\<lambda>(m, p, v). Pushed (Notification m p (Some v)))
            (snd (notification_handler elem params (world s))) \<and>
      handled (trace (processQueue s)) = handled (trace s) @ [(method, params)] \<and>
      world (processQueue s) = fst (notification_handler elem params (world s))) \<and>
   (queue s = Request method params None resolve_reject token # rest \<and>
    requestHandlers s method = Some elem' \<and> \<not> cancelled s token \<longrightarrow>
      trace (processQueue s) =
        trace s @ [Shifted (Request method params None resolve_reject token),
                   RequestHandlerCalled method params,
                   (case snd (request_handler elem' params (world s)) of
                      Thenable \<Rightarrow> Awaited resolve_reject
                    | Value value' \<Rightarrow> Resolved resolve_reject value')] \<and>
      handled (trace (processQueue s)) = handled (trace s) @ [(method, params)] \<and>
      world (processQueue s) = fst (request_handler elem' params (world s)))"
  by (auto simp: processQueue_def Let_def queue_fields handled_append stale_def added_fields
      added_events split: prod.splits HandlerResult.splits option.splits)

text \<open>
  The request of the scenario that was stamped \<^verbatim>\<open>undefined\<close>, and the same message as a
  notification.
\<close>

theorem unstamped_message_dispatched_witness:
  "handled (trace (processQueue scenario_unstamped)) =
     [(''textDocument/codeAction'', ''file:///a.js'')] \<and>
   handled (trace (processQueue scenario_unstamped_notification)) =
     [(''eslint/validate'', ''file:///a.js'')]"
proof -
  let ?relem = "\<lparr> request_handler = (\<lambda>params w. (w, Value ''[]'')),
      request_versionProvider = Some (\<lambda>params (w :: string \<rightharpoonup> int). w params) \<rparr>"
  let ?nelem = "\<lparr> notification_handler =
        (\<lambda>params (w :: string \<rightharpoonup> int). (w, [] :: (string \<times> string \<times> int) list)),
      notification_versionProvider = Some (\<lambda>params (w :: string \<rightharpoonup> int). w params) \<rparr>"
  have q1: "queue scenario_unstamped =
      Request ''textDocument/codeAction'' ''file:///a.js'' None 1 1 # []"
    and r1: "requestHandlers scenario_unstamped ''textDocument/codeAction'' = Some ?relem"
    and c1: "\<not> cancelled scenario_unstamped 1"
    and t1: "handled (trace scenario_unstamped) = []"
    by (simp_all add: scenario_unstamped_def scenario_eval)
  have q2: "queue scenario_unstamped_notification =
      Notification ''eslint/validate'' ''file:///a.js'' None # []"
    and r2: "notificationHandlers scenario_unstamped_notification ''eslint/validate'' =
      Some ?nelem"
    and t2: "handled (trace scenario_unstamped_notification) = []"
    by (simp_all add: scenario_unstamped_notification_def scenario_eval)
  from unstamped_message_dispatched
      [of _ "''file:///a.js''" scenario_unstamped "''textDocument/codeAction''" "[]" _ 1 1
        ?relem]
    q1 r1 c1 t1
  have a: "handled (trace (processQueue scenario_unstamped)) =
      [(''textDocument/codeAction'', ''file:///a.js'')]"
    by (simp add: handled_append)
  from unstamped_message_dispatched
      [of _ "''file:///a.js''" scenario_unstamped_notification "''eslint/validate''" "[]"
        ?nelem]
    q2 r2 t2
  have b: "handled (trace (processQueue scenario_unstamped_notification)) =
      [(''eslint/validate'', ''file:///a.js'')]"
    by (simp add: handled_append)
  from a b show ?thesis by simp
qed

text \<open>
  Claim C10 as stated fails: a request that is stamped \<^verbatim>\<open>undefined\<close> and whose token is
  signaled at dispatch time is rejected with \<^verbatim>\<open>RequestCancelled\<close>, and no handler is called.
\<close>

theorem unstamped_message_counterexample:
  "queue scenario_unstamped_cancelled =
     [Request ''textDocument/codeAction'' ''file:///a.js'' None 1 1] \<and>
   cancelled scenario_unstamped_cancelled 1 \<and>
   trace (processQueue scenario_unstamped_cancelled) =
     trace scenario_unstamped_cancelled @
       [Shifted (Request ''textDocument/codeAction'' ''file:///a.js'' None 1 1),
        Rejected 1 RequestCancelled] \<and>
   handled (trace (processQueue scenario_unstamped_cancelled)) = []"
  by (simp add: scenario_unstamped_cancelled_def scenario_unstamped_def scenario_eval)

section \<open>Stale notifications\<close>

text \<open>
  A notification whose snapshot differs from the provider's live value is shifted and
  dropped: no handler is called, nothing is rejected, and the function returns where it
  is, so that the timer is as it was before.
\<close>

lemma notification_dropped:
  assumes "queue s = Notification method params (Some v) # rest"
    and "notificationHandlers s method = Some elem"
    and "notification_versionProvider elem = Some versionProvider"
    and "versionProvider params (world s) \<noteq> Some v"
  shows "processQueue s = emit (Shifted (Notification method params (Some v))) (s\<lparr>queue := rest\<rparr>)"
  using assms by (simp add: processQueue_def Let_def queue_fields stale_def)

text \<open>
  Claim C5, on the third scenario of the specification. Both validate notifications are in
  the queue and the document is at version 2 when the pending callback runs. It shifts the
  notification for version 1 and drops it, and \<^verbatim>\<open>processQueue\<close> returns before
  \<^verbatim>\<open>this.trigger()\<close>: no callback is pending any more, the notification for version 2 stays
  in the queue, and however often the event loop turns, no validation runs.
\<close>

theorem stale_notification_stalls_queue:
  "queue scenario_two_versions =
     [Notification ''eslint/validate'' ''file:///a.js'' (Some 1),
      Notification ''eslint/validate'' ''file:///a.js'' (Some 2)] \<and>
   world scenario_two_versions ''file:///a.js'' = Some 2 \<and>
   timer scenario_two_versions \<and>
   queue (tick scenario_two_versions) =
     [Notification ''eslint/validate'' ''file:///a.js'' (Some 2)] \<and>
   \<not> timer (tick scenario_two_versions) \<and>
   run scenario_two_versions [Tick, Tick, Tick] = tick scenario_two_versions \<and>
   handled (trace (run scenario_two_versions [Tick, Tick, Tick])) = []"
  by (simp add: scenario_two_versions_def scenario_eval)

section \<open>Dispatch order\<close>














end
